theory Spec2Isabelle
  imports Main "HOL-Library.Word" "HOL-Library.Sublist"
begin

section \<open>JavaScript values used by the sources\<close>

text \<open>
  A JavaScript string is a sequence of UTF-16 code units: \<open>length\<close>, \<open>slice\<close>,
  \<open>indexOf\<close> and the regular expressions of the sources (none has the \<open>u\<close> flag) all
  count and compare code units. String literals of the sources that are ASCII are written
  with \<open>lit\<close>; the few other characters are given by their code unit.
\<close>

type_synonym jsstring = "16 word list"

definition lit :: "string \<Rightarrow> jsstring" where
  "lit s = map (\<lambda>c. of_nat (of_char c)) s"

text \<open>\<open>Array.prototype.join\<close> on an array of strings.\<close>

fun join :: "jsstring \<Rightarrow> jsstring list \<Rightarrow> jsstring" where
  "join sep [] = []"
| "join sep [x] = x"
| "join sep (x # y # ys) = x @ sep @ join sep (y # ys)"

text \<open>The decimal rendering of a non-negative integer inside a template literal.\<close>

function showNat :: "nat \<Rightarrow> jsstring" where
  "showNat n = (if n < 10 then [of_nat (48 + n)]
                else showNat (n div 10) @ [of_nat (48 + n mod 10)])"
  by pat_completeness auto
termination
  by (relation "measure id") auto

declare showNat.simps [simp del]

text \<open>\<open>Array.prototype.find\<close>: the first element satisfying the predicate, or undefined.\<close>

fun findFirst :: "('a \<Rightarrow> bool) \<Rightarrow> 'a list \<Rightarrow> 'a option" where
  "findFirst p [] = None"
| "findFirst p (x # xs) = (if p x then Some x else findFirst p xs)"

text \<open>\<open>a || b\<close> on strings: the empty string is falsy.\<close>

definition orElse :: "jsstring \<Rightarrow> jsstring \<Rightarrow> jsstring" where
  "orElse a b = (if a \<noteq> [] then a else b)"

text \<open>\<open>x?.name || d\<close> for an optional record \<open>x\<close>.\<close>

definition nameOr :: "('a \<Rightarrow> jsstring) \<Rightarrow> 'a option \<Rightarrow> jsstring \<Rightarrow> jsstring" where
  "nameOr nm x d = (case x of None \<Rightarrow> d | Some v \<Rightarrow> orElse (nm v) d)"

text \<open>A thrown JavaScript exception, as a value.\<close>

datatype exn = JsError jsstring

section \<open>Scanner types (types/index.ts)\<close>

record LanguageInfo =
  lang_name :: jsstring
  lang_version :: "jsstring option"
  fileCount :: nat
  extensions :: "jsstring list"

record FrameworkInfo =
  fw_name :: jsstring
  fw_version :: "jsstring option"
  fw_confidence :: int
  detectedBy :: jsstring

record BuildToolInfo =
  bt_name :: jsstring
  bt_version :: "jsstring option"
  bt_configFile :: "jsstring option"

datatype TestingType = Unit | E2e | Integration | Component

record TestingInfo =
  test_name :: jsstring
  test_type :: TestingType
  test_configFile :: "jsstring option"

record DatabaseInfo =
  db_name :: jsstring
  orm :: "jsstring option"
  db_configFile :: "jsstring option"

record DeploymentInfo =
  dep_name :: jsstring
  dep_configFile :: "jsstring option"

record StylingInfo =
  sty_name :: jsstring
  sty_version :: "jsstring option"

record LintingInfo =
  lint_name :: jsstring
  lint_configFile :: "jsstring option"

datatype PackageManager = Npm | Yarn | Pnpm | Bun | Pip | Cargo | UnknownPm

record TechStack =
  languages :: "LanguageInfo list"
  frameworks :: "FrameworkInfo list"
  buildTools :: "BuildToolInfo list"
  testing :: "TestingInfo list"
  database :: "DatabaseInfo list"
  deployment :: "DeploymentInfo list"
  styling :: "StylingInfo list"
  linting :: "LintingInfo list"
  packageManager :: PackageManager

record FileTreeAnalysis =
  totalFiles :: nat
  totalDirs :: nat
  topLevelDirs :: "jsstring list"
  hasMonorepo :: bool
  monorepoPackages :: "jsstring list option"
  significantPaths :: "jsstring list"

datatype ToolTarget = Claude | Cursor | Codex | Copilot | Windsurf | Gemini | Amp

record ExistingConfig =
  tool :: ToolTarget
  filePath :: jsstring
  sizeBytes :: nat
  content :: "jsstring option"
  isValid :: bool

record ScanResult =
  projectName :: jsstring
  projectRoot :: jsstring
  techStack :: TechStack
  fileTree :: FileTreeAnalysis
  existingConfigs :: "ExistingConfig list"

section \<open>Recommender types\<close>

datatype AgentCategory =
  Review | Testing | Database | Security | Ui | Api | Devops | Docs | Perf | General

record AgentDetails =
  description :: jsstring
  reason :: jsstring
  triggers :: "jsstring list"
  capabilities :: "jsstring list"
  relevantFiles :: "jsstring list"

record AgentRecommendation = AgentDetails +
  rec_id :: jsstring
  rec_name :: jsstring
  confidence :: int
  category :: AgentCategory
  estimatedTokens :: nat

datatype Priority = High | Medium | Low

record RuleRecommendation =
  rule_id :: jsstring
  title :: jsstring
  rule_content :: jsstring
  priority :: Priority
  rule_reason :: jsstring
  appliesTo :: "jsstring list"
  rule_category :: jsstring

text \<open>Of \<open>RecommendationResult\<close>, the two lists the adapters read.\<close>

record RecommendationResult =
  agents :: "AgentRecommendation list"
  rules :: "RuleRecommendation list"

text \<open>
  An agent template (agent-recommender.ts). Both functions of a template are ordinary
  JavaScript functions, which may throw; a throw is the \<open>Inl\<close> branch.
\<close>

record AgentTemplate =
  t_id :: jsstring
  t_name :: jsstring
  t_category :: AgentCategory
  shouldRecommend :: "ScanResult \<Rightarrow> exn + int"
  generate :: "ScanResult \<Rightarrow> exn + AgentDetails"

section \<open>Token estimation (utils/tokens.ts)\<close>

definition CHARS_PER_TOKEN :: nat where
  "CHARS_PER_TOKEN = 4"

text \<open>\<open>Math.ceil(text.length / CHARS_PER_TOKEN)\<close>.\<close>

definition estimateTokens :: "jsstring \<Rightarrow> nat" where
  "estimateTokens text = (length text + CHARS_PER_TOKEN - 1) div CHARS_PER_TOKEN"

section \<open>The agent catalog (recommender/agent-recommender.ts)\<close>

text \<open>\<open>names.includes(f.name)\<close> for some framework \<open>f\<close> of the scan.\<close>

definition someFramework :: "string list \<Rightarrow> ScanResult \<Rightarrow> bool" where
  "someFramework names scan =
     list_ex (\<lambda>f. fw_name f \<in> set (map lit names)) (frameworks (techStack scan))"

definition findFramework :: "string list \<Rightarrow> ScanResult \<Rightarrow> FrameworkInfo option" where
  "findFramework names scan =
     findFirst (\<lambda>f. fw_name f \<in> set (map lit names)) (frameworks (techStack scan))"

definition codeReviewer :: AgentTemplate where
  "codeReviewer = \<lparr>
     t_id = lit ''code-reviewer'', t_name = lit ''Code Reviewer'', t_category = Review,
     shouldRecommend = (\<lambda>scan. Inr 90),
     generate = (\<lambda>scan.
       let langs = join (lit '', '') (map lang_name (languages (techStack scan)));
           fws = join (lit '', '') (map fw_name (frameworks (techStack scan)))
       in Inr \<lparr>
         description = lit ''Review code for '' @ langs @ lit '' best practices''
           @ (if fws \<noteq> [] then lit '', '' @ fws @ lit '' patterns'' else [])
           @ lit '', and common bugs. Focus on readability, maintainability, and type safety.'',
         reason = lit ''Core languages: '' @ langs
           @ lit ''. Code review catches bugs before they ship.'',
         triggers = map lit [''review'', ''check code'', ''PR review'', ''code quality'',
           ''refactor''],
         capabilities = map lit [
           ''Identify anti-patterns and code smells'',
           ''Suggest performance improvements'',
           ''Check type safety and error handling'',
           ''Enforce consistent coding style''],
         relevantFiles = concat (map (\<lambda>l. map (\<lambda>e. lit ''**/*'' @ e) (extensions l))
           (languages (techStack scan)))\<rparr>)\<rparr>"

definition testWriter :: AgentTemplate where
  "testWriter = \<lparr>
     t_id = lit ''test-writer'', t_name = lit ''Test Writer'', t_category = Testing,
     shouldRecommend = (\<lambda>scan.
       if length (testing (techStack scan)) > 0 then Inr 88
       else if length (frameworks (techStack scan)) > 0 then Inr 70
       else Inr 50),
     generate = (\<lambda>scan.
       let testTools = map test_name (testing (techStack scan));
           testFramework = (if length testTools > 0 then join (lit '' + '') testTools
                            else lit ''your testing framework'')
       in Inr \<lparr>
         description = lit ''Write and update tests using '' @ testFramework
           @ lit ''. Generate unit tests, integration tests, and test fixtures following existing test patterns.'',
         reason = lit ''Testing tools detected: ''
           @ orElse (join (lit '', '') testTools) (lit ''none (recommendation for quality)''),
         triggers = map lit [''write test'', ''add tests'', ''test coverage'', ''unit test'',
           ''integration test'', ''fix test''],
         capabilities = [
           lit ''Generate '' @ join (lit ''/'') testTools @ lit '' test files'',
           lit ''Create test fixtures and mocks'',
           lit ''Improve test coverage for uncovered code'',
           lit ''Fix failing tests''],
         relevantFiles = map lit [''**/*.test.*'', ''**/*.spec.*'', ''**/__tests__/**'',
           ''**/tests/**'']\<rparr>)\<rparr>"

definition dbExpert :: AgentTemplate where
  "dbExpert = \<lparr>
     t_id = lit ''db-expert'', t_name = lit ''Database Expert'', t_category = Database,
     shouldRecommend = (\<lambda>scan.
       if length (database (techStack scan)) > 0 then Inr 85
       else if lit ''Database migrations'' \<in> set (significantPaths (fileTree scan)) then Inr 80
       else Inr 0),
     generate = (\<lambda>scan.
       let dbs = map db_name (database (techStack scan))
       in Inr \<lparr>
         description = lit ''Manage database schema, migrations, and queries using ''
           @ join (lit '', '') dbs
           @ lit ''. Optimize queries, handle migrations safely, and maintain data integrity.'',
         reason = lit ''Database tools detected: '' @ join (lit '', '') dbs,
         triggers = map lit [''migration'', ''schema'', ''query'', ''database'', ''db'',
           ''seed'', ''index''],
         capabilities = [
           lit ''Create and modify '' @ join (lit ''/'') dbs @ lit '' schemas'',
           lit ''Generate safe migrations'',
           lit ''Optimize slow queries'',
           lit ''Create seed data and fixtures''],
         relevantFiles = map lit [''**/prisma/**'', ''**/drizzle/**'', ''**/migrations/**'',
           ''**/seeds/**'', ''**/*.sql'']\<rparr>)\<rparr>"

definition securityAuditor :: AgentTemplate where
  "securityAuditor = \<lparr>
     t_id = lit ''security-auditor'', t_name = lit ''Security Auditor'', t_category = Security,
     shouldRecommend = (\<lambda>scan.
       let hasApi = someFramework [''Express'', ''Fastify'', ''Hono'', ''Next.js'', ''Nuxt'',
             ''Remix'', ''Astro''] scan
       in if hasApi then Inr 78 else Inr 45),
     generate = (\<lambda>scan.
       let fws = map fw_name (frameworks (techStack scan))
       in Inr \<lparr>
         description = lit ''Audit code for security vulnerabilities specific to ''
           @ join (lit '', '') fws
           @ lit ''. Check for XSS, CSRF, injection attacks, auth bypass, insecure dependencies, and exposed secrets.'',
         reason = lit ''Web framework detected: '' @ join (lit '', '') fws
           @ lit ''. Security review is critical.'',
         triggers = map lit [''security'', ''vulnerability'', ''XSS'', ''CSRF'', ''injection'',
           ''auth'', ''CVE'', ''secrets''],
         capabilities = map lit [
           ''Scan for OWASP Top 10 vulnerabilities'',
           ''Check authentication and authorization flows'',
           ''Detect hardcoded secrets and API keys'',
           ''Review dependency security advisories''],
         relevantFiles = map lit [''**/*.ts'', ''**/*.js'', ''**/.env*'', ''**/auth/**'',
           ''**/api/**'']\<rparr>)\<rparr>"

definition componentDesigner :: AgentTemplate where
  "componentDesigner = \<lparr>
     t_id = lit ''component-designer'', t_name = lit ''Component Designer'', t_category = Ui,
     shouldRecommend = (\<lambda>scan.
       let hasFrontend = someFramework [''React'', ''Vue'', ''Svelte'', ''Angular'', ''Next.js'',
             ''Nuxt'', ''SvelteKit'', ''Remix'', ''Astro''] scan;
           hasStyling = length (styling (techStack scan)) > 0
       in if hasFrontend \<and> hasStyling then Inr 82
          else if hasFrontend then Inr 68
          else Inr 0),
     generate = (\<lambda>scan.
       let framework = findFramework [''React'', ''Vue'', ''Svelte'', ''Angular''] scan;
           stys = map sty_name (styling (techStack scan))
       in Inr \<lparr>
         description = lit ''Design and build '' @ nameOr fw_name framework (lit ''UI'')
           @ lit '' components using '' @ orElse (join (lit '' + '') stys) (lit ''CSS'')
           @ lit ''. Create accessible, responsive, and reusable components following project conventions.'',
         reason = lit ''Frontend: '' @ nameOr fw_name framework (lit ''detected'')
           @ lit '', Styling: '' @ orElse (join (lit '', '') stys) (lit ''detected''),
         triggers = map lit [''component'', ''UI'', ''design'', ''layout'', ''responsive'',
           ''accessible'', ''style''],
         capabilities = [
           lit ''Build '' @ nameOr fw_name framework (lit ''UI'') @ lit '' components'',
           lit ''Style with '' @ orElse (join (lit ''/'') stys) (lit ''CSS''),
           lit ''Ensure WCAG accessibility compliance'',
           lit ''Create responsive layouts''],
         relevantFiles = map lit [''**/*.tsx'', ''**/*.jsx'', ''**/*.vue'', ''**/*.svelte'',
           ''**/*.css'']\<rparr>)\<rparr>"

definition apiDeveloper :: AgentTemplate where
  "apiDeveloper = \<lparr>
     t_id = lit ''api-developer'', t_name = lit ''API Developer'', t_category = Api,
     shouldRecommend = (\<lambda>scan.
       let hasBackend = someFramework [''Express'', ''Fastify'', ''Hono'', ''Next.js'', ''Nuxt'',
             ''Remix''] scan
       in if hasBackend then Inr 80 else Inr 0),
     generate = (\<lambda>scan.
       let backend = findFramework [''Express'', ''Fastify'', ''Hono'', ''Next.js''] scan
       in Inr \<lparr>
         description = lit ''Build and maintain API endpoints using ''
           @ nameOr fw_name backend (lit ''your framework'')
           @ lit ''. Design RESTful or GraphQL APIs with proper validation, error handling, and documentation.'',
         reason = lit ''Backend framework: '' @ nameOr fw_name backend (lit ''detected''),
         triggers = map lit [''API'', ''endpoint'', ''route'', ''handler'', ''REST'', ''GraphQL'',
           ''middleware''],
         capabilities = map lit [
           ''Design API endpoints with proper HTTP methods'',
           ''Implement request validation and error handling'',
           ''Generate API documentation'',
           ''Create middleware and guards''],
         relevantFiles = map lit [''**/api/**'', ''**/routes/**'', ''**/handlers/**'',
           ''**/middleware/**'']\<rparr>)\<rparr>"

definition devopsHelper :: AgentTemplate where
  "devopsHelper = \<lparr>
     t_id = lit ''devops-helper'', t_name = lit ''DevOps Helper'', t_category = Devops,
     shouldRecommend = (\<lambda>scan.
       if length (deployment (techStack scan)) > 0 then Inr 72 else Inr 0),
     generate = (\<lambda>scan.
       let tools = map dep_name (deployment (techStack scan))
       in Inr \<lparr>
         description = lit ''Manage CI/CD pipelines, Docker configurations, and deployment using ''
           @ join (lit '', '') tools
           @ lit ''. Optimize build times, configure environments, and handle infrastructure as code.'',
         reason = lit ''Deployment tools: '' @ join (lit '', '') tools,
         triggers = map lit [''deploy'', ''CI/CD'', ''pipeline'', ''Docker'', ''build'',
           ''release'', ''environment''],
         capabilities = [
           lit ''Configure '' @ join (lit ''/'') tools @ lit '' pipelines'',
           lit ''Optimize Docker builds'',
           lit ''Manage environment variables'',
           lit ''Set up deployment workflows''],
         relevantFiles = map lit [''.github/workflows/**'', ''**/Dockerfile*'',
           ''**/docker-compose*'', ''**/terraform/**'', ''**/*.yaml'']\<rparr>)\<rparr>"

text \<open>The dash in the reason of the next two templates is U+2014.\<close>

definition perfOptimizer :: AgentTemplate where
  "perfOptimizer = \<lparr>
     t_id = lit ''perf-optimizer'', t_name = lit ''Performance Optimizer'', t_category = Perf,
     shouldRecommend = (\<lambda>scan.
       let hasFrontend = someFramework [''React'', ''Next.js'', ''Vue'', ''Nuxt'', ''Svelte'',
             ''SvelteKit''] scan
       in if hasFrontend \<and> totalFiles (fileTree scan) > 50 then Inr 65 else Inr 0),
     generate = (\<lambda>scan.
       let framework = (case frameworks (techStack scan) of [] \<Rightarrow> None | f # _ \<Rightarrow> Some f)
       in Inr \<lparr>
         description = lit ''Optimize performance for ''
           @ nameOr fw_name framework (lit ''your app'')
           @ lit ''. Analyze bundle size, identify render bottlenecks, optimize images, and improve Core Web Vitals.'',
         reason = nameOr fw_name framework (lit ''Frontend'') @ lit '' app with ''
           @ showNat (totalFiles (fileTree scan)) @ lit '' files '' @ [0x2014]
           @ lit '' performance matters at scale.'',
         triggers = map lit [''performance'', ''slow'', ''optimize'', ''bundle'', ''lazy load'',
           ''cache'', ''Core Web Vitals''],
         capabilities = map lit [
           ''Identify and fix render bottlenecks'',
           ''Optimize bundle size and code splitting'',
           ''Improve Core Web Vitals scores'',
           ''Set up caching strategies''],
         relevantFiles = map lit [''**/*.tsx'', ''**/*.jsx'', ''**/next.config.*'',
           ''**/vite.config.*'']\<rparr>)\<rparr>"

definition docsWriter :: AgentTemplate where
  "docsWriter = \<lparr>
     t_id = lit ''docs-writer'', t_name = lit ''Documentation Writer'', t_category = Docs,
     shouldRecommend = (\<lambda>scan.
       if totalFiles (fileTree scan) > 30 then Inr 55 else Inr 30),
     generate = (\<lambda>scan. Inr \<lparr>
         description = lit ''Write and maintain project documentation including README, API docs, guides, and inline code comments. Follow the project's existing documentation style.'',
         reason = lit ''Project has '' @ showNat (totalFiles (fileTree scan)) @ lit '' files ''
           @ [0x2014] @ lit '' documentation helps onboarding.'',
         triggers = map lit [''document'', ''README'', ''docs'', ''comment'', ''explain'',
           ''guide'', ''API docs''],
         capabilities = map lit [
           ''Generate comprehensive README files'',
           ''Write API documentation'',
           ''Add JSDoc/TSDoc comments to code'',
           ''Create onboarding guides''],
         relevantFiles = map lit [''**/*.md'', ''**/docs/**'', ''README*'']\<rparr>)\<rparr>"

definition AGENT_TEMPLATES :: "AgentTemplate list" where
  "AGENT_TEMPLATES = [codeReviewer, testWriter, dbExpert, securityAuditor, componentDesigner,
     apiDeveloper, devopsHelper, perfOptimizer, docsWriter]"

section \<open>The recommendation engine\<close>

text \<open>
  The body of the \<open>for\<close> loop of \<open>recommendAgents\<close>, over the templates still to visit,
  with the \<open>recommendations\<close> array pushed to so far. There is no \<open>try\<close> around the two
  calls, so a throw leaves the loop and the function.
\<close>

fun collectAgents ::
  "AgentTemplate list \<Rightarrow> ScanResult \<Rightarrow> AgentRecommendation list
     \<Rightarrow> exn + AgentRecommendation list" where
  "collectAgents [] scan recs = Inr recs"
| "collectAgents (t # ts) scan recs =
     (case shouldRecommend t scan of
        Inl e \<Rightarrow> Inl e
      | Inr conf \<Rightarrow>
          if conf < 40 then collectAgents ts scan recs
          else (case generate t scan of
                  Inl e \<Rightarrow> Inl e
                | Inr details \<Rightarrow>
                    collectAgents ts scan (recs @ [AgentDetails.extend details
                      (AgentRecommendation.fields (t_id t) (t_name t) conf (t_category t)
                        (estimateTokens (description details
                           @ join (lit '' '') (capabilities details))))])))"

text \<open>
  \<open>recommendations.sort((a, b) => b.confidence - a.confidence)\<close>:
  \<open>Array.prototype.sort\<close> is a stable sort, and the comparator orders by descending
  confidence, that is by ascending negated confidence. \<open>sort_key\<close> is the stable
  insertion sort of the list library; a stable sort by a key has only one result.
\<close>

definition sortByConfidence :: "AgentRecommendation list \<Rightarrow> AgentRecommendation list" where
  "sortByConfidence recs = sort_key (\<lambda>r. - confidence r) recs"

text \<open>\<open>recommendAgents\<close> with the catalog it iterates over as an argument.\<close>

definition recommendAgentsFrom ::
  "AgentTemplate list \<Rightarrow> ScanResult \<Rightarrow> exn + AgentRecommendation list" where
  "recommendAgentsFrom templates scan =
     (case collectAgents templates scan [] of
        Inl e \<Rightarrow> Inl e
      | Inr recs \<Rightarrow> Inr (sortByConfidence recs))"

definition recommendAgents :: "ScanResult \<Rightarrow> exn + AgentRecommendation list" where
  "recommendAgents scan = recommendAgentsFrom AGENT_TEMPLATES scan"

text \<open>
  What evaluating one template in the loop body raises, if anything: the exception of
  \<open>shouldRecommend\<close>, or that of \<open>generate\<close> when the score reaches the threshold
  (\<open>generate\<close> is not called below it).
\<close>

definition templateFailure :: "AgentTemplate \<Rightarrow> ScanResult \<Rightarrow> exn option" where
  "templateFailure t scan =
     (case shouldRecommend t scan of
        Inl e \<Rightarrow> Some e
      | Inr c \<Rightarrow> if c < 40 then None
                 else (case generate t scan of Inl e \<Rightarrow> Some e | Inr d \<Rightarrow> None))"

text \<open>The score of a template that does not throw.\<close>

definition scoreOf :: "AgentTemplate \<Rightarrow> ScanResult \<Rightarrow> int" where
  "scoreOf t scan = (case shouldRecommend t scan of Inl e \<Rightarrow> 0 | Inr c \<Rightarrow> c)"

text \<open>The identifiers and confidences of a returned list, in order.\<close>

definition keysOf :: "exn + AgentRecommendation list \<Rightarrow> (jsstring \<times> int) list" where
  "keysOf res =
     (case res of Inl e \<Rightarrow> [] | Inr recs \<Rightarrow> map (\<lambda>r. (rec_id r, confidence r)) recs)"

subsection \<open>Sample snapshots\<close>

text \<open>An empty project.\<close>

definition scanBare :: ScanResult where
  "scanBare = \<lparr>projectName = lit ''demo'', projectRoot = lit ''/tmp/demo'',
     techStack = \<lparr>languages = [], frameworks = [], buildTools = [], testing = [],
       database = [], deployment = [], styling = [], linting = [], packageManager = Npm\<rparr>,
     fileTree = \<lparr>totalFiles = 0, totalDirs = 0, topLevelDirs = [], hasMonorepo = False,
       monorepoPackages = None, significantPaths = []\<rparr>,
     existingConfigs = []\<rparr>"

text \<open>An Express project with a migrations directory and no database tool detected.\<close>

definition scanTie :: ScanResult where
  "scanTie = scanBare\<lparr>
     techStack := (techStack scanBare)\<lparr>frameworks :=
       [\<lparr>fw_name = lit ''Express'', fw_version = None, fw_confidence = 90,
         detectedBy = lit ''package.json''\<rparr>]\<rparr>,
     fileTree := (fileTree scanBare)\<lparr>significantPaths := [lit ''Database migrations'']\<rparr>\<rparr>"

section \<open>Adapter types\<close>

datatype SizeUnit = Tokens | Chars | Bytes

record GeneratedFile =
  gf_path :: jsstring
  gf_content :: jsstring
  gf_description :: jsstring
  gf_sizeBytes :: nat

record AdapterOutput =
  ao_tool :: ToolTarget
  files :: "GeneratedFile list"
  totalSize :: nat
  sizeUnit :: SizeUnit
  warnings :: "jsstring list"

text \<open>
  \<open>Buffer.byteLength(s, "utf-8")\<close>: the number of bytes of the UTF-8 encoding of a
  string. A code unit below U+0080 takes one byte, below U+0800 two; a high surrogate
  followed by a low surrogate is one code point of four bytes; any other code unit, a lone
  surrogate included (encoded as U+FFFD), takes three.
\<close>

definition isHighSurrogate :: "16 word \<Rightarrow> bool" where
  "isHighSurrogate c = (0xD800 \<le> c \<and> c \<le> 0xDBFF)"

definition isLowSurrogate :: "16 word \<Rightarrow> bool" where
  "isLowSurrogate c = (0xDC00 \<le> c \<and> c \<le> 0xDFFF)"

fun byteLength :: "jsstring \<Rightarrow> nat" where
  "byteLength [] = 0"
| "byteLength [c] = (if c < 0x80 then 1 else if c < 0x800 then 2 else 3)"
| "byteLength (c # d # ds) =
     (if c < 0x80 then 1 + byteLength (d # ds)
      else if c < 0x800 then 2 + byteLength (d # ds)
      else if isHighSurrogate c \<and> isLowSurrogate d then 4 + byteLength ds
      else 3 + byteLength (d # ds))"

section \<open>The Windsurf adapter (adapters/windsurf-adapter.ts)\<close>

definition WINDSURF_CHAR_LIMIT :: nat where
  "WINDSURF_CHAR_LIMIT = 6000"

text \<open>The marker appended to truncated content; its first two code units are line feeds.\<close>

definition truncationMarker :: jsstring where
  "truncationMarker = [0x0A, 0x0A] @ lit ''<!-- Truncated by dotti to fit 6k char limit -->''"

definition generateWindsurfRules :: "ScanResult \<Rightarrow> RecommendationResult \<Rightarrow> GeneratedFile" where
  "generateWindsurfRules scan rec =
     (let techs = map fw_name (frameworks (techStack scan))
                  @ map lang_name (take 2 (languages (techStack scan)));
          highPriority = filter (\<lambda>r. priority r = High) (rules rec);
          lines = [lit ''# '' @ projectName scan, [],
                   lit ''Stack: '' @ join (lit '', '') techs, []]
                  @ concat (map (\<lambda>r. [rule_content r, []]) highPriority)
                  @ (if length (agents rec) > 0
                     then lit ''## Roles''
                          # map (\<lambda>a. lit ''- **'' @ rec_name a @ lit ''**: ''
                                       @ take 120 (description a))
                              (take 5 (agents rec))
                     else []);
          content = join [0x0A] lines
      in \<lparr>gf_path = lit ''.windsurfrules'', gf_content = content,
          gf_description = lit ''Project rules for Windsurf (Cascade)'',
          gf_sizeBytes = byteLength content\<rparr>)"

text \<open>
  The size-enforcement step of \<open>WindsurfAdapter.generate\<close> (the \<open>if\<close> statement after
  the rules file is built): the file as it is afterwards, and the warnings pushed. The dash
  of the warning is U+2014.
\<close>

definition enforceCharLimit :: "GeneratedFile \<Rightarrow> GeneratedFile \<times> jsstring list" where
  "enforceCharLimit rulesFile =
     (if length (gf_content rulesFile) > WINDSURF_CHAR_LIMIT then
        (let warning = lit ''Content is '' @ showNat (length (gf_content rulesFile))
               @ lit '' chars '' @ [0x2014] @ lit '' exceeds Windsurf's ''
               @ showNat WINDSURF_CHAR_LIMIT @ lit '' char limit. ''
               @ lit ''Truncating to fit. Consider using fewer rules.'';
             truncated = take (WINDSURF_CHAR_LIMIT - 50) (gf_content rulesFile)
               @ truncationMarker
         in (rulesFile\<lparr>gf_content := truncated, gf_sizeBytes := byteLength truncated\<rparr>,
             [warning]))
      else (rulesFile, []))"

definition windsurfGenerate :: "ScanResult \<Rightarrow> RecommendationResult \<Rightarrow> AdapterOutput" where
  "windsurfGenerate scan recommendations =
     (let (rulesFile, warns) = enforceCharLimit (generateWindsurfRules scan recommendations)
      in \<lparr>ao_tool = Windsurf, files = [rulesFile],
          totalSize = length (gf_content rulesFile), sizeUnit = Chars, warnings = warns\<rparr>)"


subsection \<open>Sample files\<close>

definition longFile :: GeneratedFile where
  "longFile = \<lparr>gf_path = lit ''.windsurfrules'', gf_content = replicate 6001 0x61,
     gf_description = lit ''Project rules for Windsurf (Cascade)'', gf_sizeBytes = 6001\<rparr>"

definition shortFile :: GeneratedFile where
  "shortFile = \<lparr>gf_path = lit ''.windsurfrules'', gf_content = lit ''# demo'',
     gf_description = lit ''Project rules for Windsurf (Cascade)'', gf_sizeBytes = 6\<rparr>"


section \<open>The conflict analyzer (fixer/index.ts)\<close>

datatype IssueType = Overlap | Vague | Duplicate

datatype Severity = SevError | SevWarning

record ParsedAgent =
  pa_tool :: ToolTarget
  pa_file :: jsstring
  pa_name :: jsstring
  pa_description :: jsstring
  pa_triggers :: "jsstring list"

record FixIssue =
  fi_type :: IssueType
  fi_severity :: Severity
  fi_agents :: "jsstring list"
  fi_message :: jsstring
  fi_suggestion :: "jsstring option"

text \<open>\<open>new Set(xs).size\<close>: the number of distinct elements of an array.\<close>

definition setSize :: "'a list \<Rightarrow> nat" where
  "setSize xs = length (remdups xs)"

definition overlapIssue :: "ParsedAgent \<Rightarrow> ParsedAgent \<Rightarrow> jsstring list \<Rightarrow> FixIssue" where
  "overlapIssue a b shared = \<lparr>
     fi_type = Overlap, fi_severity = SevWarning,
     fi_agents = [pa_file a, pa_file b],
     fi_message = [0x22] @ pa_name a @ [0x22] @ lit '' and '' @ [0x22] @ pa_name b @ [0x22]
       @ lit '' share '' @ showNat (length shared) @ lit '' trigger words: ''
       @ join (lit '', '') shared,
     fi_suggestion = Some (lit
       ''Differentiate triggers so each agent has a unique activation pattern'')\<rparr>"

text \<open>
  The inner loop of \<open>detectOverlaps\<close>: the agent \<open>a = agents[i]\<close> against the agents
  \<open>agents[j]\<close> after it. \<open>shared.length / minSize > 0.5\<close> compares a quotient of two array
  lengths with one half, which is \<open>2 * shared.length > minSize\<close>.
\<close>

fun overlapsWith :: "ParsedAgent \<Rightarrow> ParsedAgent list \<Rightarrow> FixIssue list" where
  "overlapsWith a [] = []"
| "overlapsWith a (b # bs) =
     (if length (pa_triggers a) = 0 \<or> length (pa_triggers b) = 0 then overlapsWith a bs
      else
        let shared = filter (\<lambda>t. t \<in> set (pa_triggers b)) (pa_triggers a);
            minSize = min (setSize (pa_triggers a)) (setSize (pa_triggers b))
        in if minSize > 0 \<and> 2 * length shared > minSize
           then overlapIssue a b shared # overlapsWith a bs
           else overlapsWith a bs)"

fun detectOverlaps :: "ParsedAgent list \<Rightarrow> FixIssue list" where
  "detectOverlaps [] = []"
| "detectOverlaps (a # rest) = overlapsWith a rest @ detectOverlaps rest"

definition agentDup :: ParsedAgent where
  "agentDup = \<lparr>pa_tool = Claude, pa_file = lit ''.claude/agents/reviewer.md'',
     pa_name = lit ''Reviewer'',
     pa_description = lit ''Review code for quality issues and best practices'',
     pa_triggers = map lit [''review'', ''review'', ''lint'', ''style'']\<rparr>"

definition agentOther :: ParsedAgent where
  "agentOther = \<lparr>pa_tool = Claude, pa_file = lit ''.claude/agents/checker.md'',
     pa_name = lit ''Checker'',
     pa_description = lit ''Check code and find potential bugs'',
     pa_triggers = map lit [''review'', ''bugs'', ''perf'']\<rparr>"

text \<open>The criterion of the specification, on the trigger sets.\<close>

definition overlapSpec :: "ParsedAgent \<Rightarrow> ParsedAgent \<Rightarrow> bool" where
  "overlapSpec a b =
     (set (pa_triggers a) \<noteq> {} \<and> set (pa_triggers b) \<noteq> {}
      \<and> 2 * card (set (pa_triggers a) \<inter> set (pa_triggers b))
          > min (card (set (pa_triggers a))) (card (set (pa_triggers b))))"

text \<open>The pairs \<open>(agents[i], agents[j])\<close> with \<open>i < j\<close>, in the order of the two loops.\<close>

fun pairsOf :: "'a list \<Rightarrow> ('a \<times> 'a) list" where
  "pairsOf [] = []"
| "pairsOf (a # rest) = map (Pair a) rest @ pairsOf rest"

text \<open>The array \<open>shared\<close> computed for a pair.\<close>

definition sharedOf :: "ParsedAgent \<Rightarrow> ParsedAgent \<Rightarrow> jsstring list" where
  "sharedOf a b = filter (\<lambda>t. t \<in> set (pa_triggers b)) (pa_triggers a)"


subsection \<open>Duplicate names\<close>

text \<open>
  The \<open>Map\<close> \<open>byName\<close>, as the list of its entries in insertion order.
  \<open>mapPush k a m\<close> is the map after
  \<open>existing = m.get(k) || []; existing.push(a); m.set(k, existing)\<close>: an existing key keeps
  its place, a new key is added at the end.
\<close>

fun mapPush :: "'k \<Rightarrow> 'v \<Rightarrow> ('k \<times> 'v list) list \<Rightarrow> ('k \<times> 'v list) list" where
  "mapPush k a [] = [(k, [a])]"
| "mapPush k a ((k', g) # m) =
     (if k' = k then (k', g @ [a]) # m else (k', g) # mapPush k a m)"

text \<open>
  The issue pushed for a group. It is built only for groups of at least two records, so
  \<open>group[0]\<close> exists; the empty case is there to make that explicit.
\<close>

definition duplicateIssue :: "ParsedAgent list \<Rightarrow> FixIssue" where
  "duplicateIssue grp = \<lparr>
     fi_type = Duplicate, fi_severity = SevWarning,
     fi_agents = map pa_file grp,
     fi_message = lit ''Agent '' @ [0x22]
       @ (case grp of [] \<Rightarrow> [] | first # others \<Rightarrow> pa_name first) @ [0x22]
       @ lit '' exists in ''
       @ showNat (setSize (map pa_tool grp)) @ lit '' tools with different descriptions'',
     fi_suggestion = Some (lit
       ''Align descriptions across tools for consistent routing, or rename to differentiate'')\<rparr>"

text \<open>The second loop of \<open>detectDuplicates\<close>, over the entries of \<open>byName\<close>.\<close>

fun duplicateIssues :: "(jsstring \<times> ParsedAgent list) list \<Rightarrow> FixIssue list" where
  "duplicateIssues [] = []"
| "duplicateIssues ((name, grp) # entries) =
     (if length grp \<le> 1 then duplicateIssues entries
      else if setSize (map pa_tool grp) \<le> 1 then duplicateIssues entries
      else if setSize (map pa_description grp) > 1
           then duplicateIssue grp # duplicateIssues entries
      else duplicateIssues entries)"

text \<open>
  \<open>detectDuplicates\<close>. \<open>String.prototype.toLowerCase\<close> is the built-in lower-casing of
  the Unicode tables; it is the argument \<open>toLowerCase\<close>.
\<close>

definition byNameOf ::
  "(jsstring \<Rightarrow> jsstring) \<Rightarrow> ParsedAgent list \<Rightarrow> (jsstring \<times> ParsedAgent list) list" where
  "byNameOf toLowerCase ags = fold (\<lambda>agent m. mapPush (toLowerCase (pa_name agent)) agent m) ags []"

definition detectDuplicates :: "(jsstring \<Rightarrow> jsstring) \<Rightarrow> ParsedAgent list \<Rightarrow> FixIssue list" where
  "detectDuplicates toLowerCase ags = duplicateIssues (byNameOf toLowerCase ags)"

text \<open>
  The grouping of the specification: the distinct keys in order of first appearance, and for
  each key the records having it, in their order.
\<close>

definition firstOccurrences :: "'a list \<Rightarrow> 'a list" where
  "firstOccurrences xs = fold (\<lambda>x acc. if x \<in> set acc then acc else acc @ [x]) xs []"

definition groupsByName :: "(jsstring \<Rightarrow> jsstring) \<Rightarrow> ParsedAgent list \<Rightarrow> ParsedAgent list list" where
  "groupsByName toLowerCase ags =
     map (\<lambda>k. filter (\<lambda>a. toLowerCase (pa_name a) = k) ags)
       (firstOccurrences (map (\<lambda>a. toLowerCase (pa_name a)) ags))"

definition flaggedGroup :: "ParsedAgent list \<Rightarrow> bool" where
  "flaggedGroup g = (card (pa_tool ` set g) > 1 \<and> card (pa_description ` set g) > 1)"

text \<open>
  Lower-casing of the ASCII letters, every other code unit unchanged. It is
  \<open>toLowerCase\<close> on ASCII strings, and comparing after it is what the \<open>i\<close> flag of
  a regular expression without the \<open>u\<close> flag does for an ASCII pattern.
\<close>

definition asciiLower :: "jsstring \<Rightarrow> jsstring" where
  "asciiLower s = map (\<lambda>c. if 0x41 \<le> c \<and> c \<le> 0x5A then c + 0x20 else c) s"

definition reviewerClaude :: ParsedAgent where
  "reviewerClaude = \<lparr>pa_tool = Claude, pa_file = lit ''.claude/agents/reviewer.md'',
     pa_name = lit ''Code Reviewer'',
     pa_description = lit ''Review code for quality issues and best practices'',
     pa_triggers = []\<rparr>"

definition reviewerCopilot :: ParsedAgent where
  "reviewerCopilot = \<lparr>pa_tool = Copilot, pa_file = lit ''.github/agents/reviewer.agent.md'',
     pa_name = lit ''code reviewer'',
     pa_description = lit ''Check pull requests for style problems'',
     pa_triggers = []\<rparr>"

definition helperOne :: ParsedAgent where
  "helperOne = \<lparr>pa_tool = Claude, pa_file = lit ''.claude/agents/helper.md'',
     pa_name = lit ''Helper'', pa_description = lit ''Write tests'', pa_triggers = []\<rparr>"

definition helperTwo :: ParsedAgent where
  "helperTwo = \<lparr>pa_tool = Claude, pa_file = lit ''.claude/agents/helper2.md'',
     pa_name = lit ''Helper'', pa_description = lit ''Fix bugs'', pa_triggers = []\<rparr>"

definition docsClaude :: ParsedAgent where
  "docsClaude = \<lparr>pa_tool = Claude, pa_file = lit ''.claude/agents/docs.md'',
     pa_name = lit ''Docs'', pa_description = lit ''Write documentation'', pa_triggers = []\<rparr>"

definition docsCopilot :: ParsedAgent where
  "docsCopilot = \<lparr>pa_tool = Copilot, pa_file = lit ''.github/agents/docs.agent.md'',
     pa_name = lit ''Docs'', pa_description = lit ''Write documentation'', pa_triggers = []\<rparr>"

definition sampleAgents :: "ParsedAgent list" where
  "sampleAgents = [reviewerClaude, helperOne, docsClaude, reviewerCopilot, helperTwo, docsCopilot]"


section \<open>Frontmatter (utils/frontmatter.ts)\<close>

text \<open>
  The line terminators of ECMAScript (the characters a dot does not match) and its white
  space (the characters \<open>\s\<close> matches and \<open>trim\<close> removes): the line terminators, tab,
  vertical tab, form feed, space, no-break space, U+FEFF and the space separators.
\<close>

definition isLineTerminator :: "16 word \<Rightarrow> bool" where
  "isLineTerminator c = (c = 0x0A \<or> c = 0x0D \<or> c = 0x2028 \<or> c = 0x2029)"

definition isSpace :: "16 word \<Rightarrow> bool" where
  "isSpace c =
     (isLineTerminator c \<or> c = 0x09 \<or> c = 0x0B \<or> c = 0x0C \<or> c = 0x20 \<or> c = 0xA0
      \<or> c = 0x1680 \<or> (0x2000 \<le> c \<and> c \<le> 0x200A) \<or> c = 0x202F \<or> c = 0x205F
      \<or> c = 0x3000 \<or> c = 0xFEFF)"

text \<open>\<open>String.prototype.trim\<close>.\<close>

definition trim :: "jsstring \<Rightarrow> jsstring" where
  "trim s = rev (dropWhile isSpace (rev (dropWhile isSpace s)))"

text \<open>The rest of a string after a given prefix, if it starts with that prefix.\<close>

fun stripPrefix :: "'a list \<Rightarrow> 'a list \<Rightarrow> 'a list option" where
  "stripPrefix [] s = Some s"
| "stripPrefix (p # ps) [] = None"
| "stripPrefix (p # ps) (c # cs) = (if p = c then stripPrefix ps cs else None)"

text \<open>\<open>\r?\n\<close> at the start of a string: a line feed, or a carriage return and a line feed.\<close>

definition stripNewline :: "jsstring \<Rightarrow> jsstring option" where
  "stripNewline s =
     (case stripPrefix [0x0D, 0x0A] s of Some r \<Rightarrow> Some r | None \<Rightarrow> stripPrefix [0x0A] s)"

text \<open>
  \<open>String.prototype.split(/\r?\n/)\<close>: the pieces between the line breaks; a carriage
  return counts only when a line feed follows it. The result has at least one piece.
\<close>

fun splitLines :: "jsstring \<Rightarrow> jsstring list" where
  "splitLines [] = [[]]"
| "splitLines [c] = (if c = 0x0A then [[], []] else [[c]])"
| "splitLines (c # d # ds) =
     (if c = 0x0A then [] # splitLines (d # ds)
      else if c = 0x0D \<and> d = 0x0A then [] # splitLines ds
      else (case splitLines (d # ds) of
              [] \<Rightarrow> [[c]]
            | l # ls \<Rightarrow> (c # l) # ls))"

text \<open>
  The regular expression of \<open>parseFrontmatter\<close>,
  \<^verbatim>\<open>/^---\r?\n([\s\S]*?)\r?\n---\r?\n?([\s\S]*)$/\<close>, has no flag: \<open>^\<close> is the start of the
  string and \<open>$\<close> its end. It matches when the string starts with three hyphens and a line
  break (\<open>openDelimiter\<close>) and a line break followed by three hyphens occurs later
  (\<open>closeDelimiter\<close>). The first group is lazy, so it ends at the first such place
  (\<open>findClose\<close>); after the closing hyphens an optional carriage return and an optional
  line feed are consumed (\<open>skipLineBreak\<close>), and the second group is all the rest.
\<close>

definition openDelimiter :: "jsstring \<Rightarrow> jsstring option" where
  "openDelimiter s =
     (case stripPrefix (lit ''---'') s of None \<Rightarrow> None | Some r \<Rightarrow> stripNewline r)"

definition closeDelimiter :: "jsstring \<Rightarrow> jsstring option" where
  "closeDelimiter s =
     (case stripNewline s of None \<Rightarrow> None | Some r \<Rightarrow> stripPrefix (lit ''---'') r)"

fun findClose :: "jsstring \<Rightarrow> (jsstring \<times> jsstring) option" where
  "findClose [] = None"
| "findClose (c # cs) =
     (case closeDelimiter (c # cs) of
        Some rest \<Rightarrow> Some ([], rest)
      | None \<Rightarrow> (case findClose cs of
                   None \<Rightarrow> None
                 | Some (block, rest) \<Rightarrow> Some (c # block, rest)))"

fun skipLineBreak :: "jsstring \<Rightarrow> jsstring" where
  "skipLineBreak [] = []"
| "skipLineBreak [c] = (if c = 0x0D \<or> c = 0x0A then [] else [c])"
| "skipLineBreak (c # d # ds) =
     (if c = 0x0D then (if d = 0x0A then ds else d # ds)
      else if c = 0x0A then d # ds
      else c # d # ds)"

record FrontmatterResult =
  fm_found :: bool
  fm_fields :: "jsstring \<rightharpoonup> jsstring"
  fm_body :: jsstring

text \<open>
  One line of the block: \<open>colonIdx = line.indexOf(":")\<close>, and for \<open>colonIdx > 0\<close> the
  trimmed key before the colon and the trimmed value after it.
\<close>

definition fieldOfLine :: "jsstring \<Rightarrow> (jsstring \<times> jsstring) option" where
  "fieldOfLine line =
     (let keyPart = takeWhile (\<lambda>c. c \<noteq> 0x3A) line
      in if 0x3A \<in> set line \<and> length keyPart > 0
         then Some (trim keyPart, trim (drop (length keyPart + 1) line))
         else None)"

text \<open>
  \<open>fields\<close> is a plain object filled by \<open>fields[key] = value\<close>, a later line replacing an
  earlier one with the same key; the sources read it at the keys \<open>name\<close>,
  \<open>description\<close>, \<open>globs\<close>, \<open>applyTo\<close> and \<open>alwaysApply\<close>, which no object
  inherits, so a map from keys to values models it.
\<close>

definition parseFields :: "jsstring \<Rightarrow> (jsstring \<rightharpoonup> jsstring)" where
  "parseFields block =
     fold (\<lambda>line m. case fieldOfLine line of None \<Rightarrow> m | Some (k, v) \<Rightarrow> m(k \<mapsto> v))
       (splitLines block) Map.empty"

definition parseFrontmatter :: "jsstring \<Rightarrow> FrontmatterResult" where
  "parseFrontmatter src =
     (case openDelimiter src of
        None \<Rightarrow> \<lparr>fm_found = False, fm_fields = Map.empty, fm_body = src\<rparr>
      | Some r \<Rightarrow>
          (case findClose r of
             None \<Rightarrow> \<lparr>fm_found = False, fm_fields = Map.empty, fm_body = src\<rparr>
           | Some (block, rest) \<Rightarrow>
               \<lparr>fm_found = True, fm_fields = parseFields block, fm_body = skipLineBreak rest\<rparr>))"

text \<open>\<open>config.content ?? ""\<close>.\<close>

definition contentOf :: "ExistingConfig \<Rightarrow> jsstring" where
  "contentOf config = (case content config of None \<Rightarrow> [] | Some c \<Rightarrow> c)"

text \<open>A field of the frontmatter that is present and not the empty string (truthy).\<close>

definition field :: "FrontmatterResult \<Rightarrow> string \<Rightarrow> jsstring option" where
  "field fm key = (case fm_fields fm (lit key) of None \<Rightarrow> None
                   | Some v \<Rightarrow> if v = [] then None else Some v)"

section \<open>Glob patterns of a config (validator/index.ts, pruner/index.ts)\<close>

text \<open>\<open>String.prototype.split(",")\<close>.\<close>

fun splitOn :: "16 word \<Rightarrow> jsstring \<Rightarrow> jsstring list" where
  "splitOn sep [] = [[]]"
| "splitOn sep (c # cs) =
     (if c = sep then [] # splitOn sep cs
      else (case splitOn sep cs of [] \<Rightarrow> [[c]] | l # ls \<Rightarrow> (c # l) # ls))"

text \<open>
  \<^verbatim>\<open>applyTo.replace(/^"(.*)"$/, "$1")\<close>: a value that starts and ends with a double quote,
  with no line terminator in between, loses the two quotes.
\<close>

definition unquote :: "jsstring \<Rightarrow> jsstring" where
  "unquote s =
     (if length s \<ge> 2 \<and> hd s = 0x22 \<and> last s = 0x22
         \<and> \<not> list_ex isLineTerminator (butlast (tl s))
      then butlast (tl s) else s)"

definition extractGlobPatterns :: "ExistingConfig \<Rightarrow> jsstring list" where
  "extractGlobPatterns config =
     (let fm = parseFrontmatter (contentOf config)
      in if \<not> fm_found fm then []
         else
           let fromGlobs = (case field fm ''globs'' of
                  None \<Rightarrow> []
                | Some g \<Rightarrow> map trim (splitOn 0x2C g));
               fromApplyTo = (case field fm ''applyTo'' of
                  None \<Rightarrow> []
                | Some a \<Rightarrow> map trim (splitOn 0x2C (unquote a)))
           in filter (\<lambda>p. p \<noteq> []) (fromGlobs @ fromApplyTo))"

text \<open>
  \<open>path.isAbsolute\<close>, \<open>path.join\<close> (node:path) and \<open>glob\<close> (the glob package) are not
  code of the repository: they are the environment of the two analyzers. \<open>glob\<close> returns the
  matched paths or throws.
\<close>

record PathEnv =
  isAbsolute :: "jsstring \<Rightarrow> bool"
  pathJoin :: "jsstring \<Rightarrow> jsstring \<Rightarrow> jsstring"
  glob :: "jsstring \<Rightarrow> exn + jsstring list"

text \<open>\<open>String.prototype.includes\<close>.\<close>

fun includesSub :: "'a list \<Rightarrow> 'a list \<Rightarrow> bool" where
  "includesSub sub [] = (sub = [])"
| "includesSub sub (c # cs) = (stripPrefix sub (c # cs) \<noteq> None \<or> includesSub sub cs)"

definition isUniversal :: "jsstring \<Rightarrow> bool" where
  "isUniversal pattern = (pattern = lit ''**/*'' \<or> pattern = lit ''**'')"

definition isUnsafe :: "PathEnv \<Rightarrow> jsstring \<Rightarrow> bool" where
  "isUnsafe env pattern = (includesSub (lit ''..'') pattern \<or> isAbsolute env pattern)"

text \<open>\<open>path.join(projectRoot, pattern).replace(/\\/g, "/")\<close>.\<close>

definition fullPatternOf :: "PathEnv \<Rightarrow> jsstring \<Rightarrow> jsstring \<Rightarrow> jsstring" where
  "fullPatternOf env root pattern =
     map (\<lambda>c. if c = 0x5C then 0x2F else c) (pathJoin env root pattern)"

section \<open>The validator's glob check (validator/index.ts)\<close>






section \<open>The prune analyzer (pruner/index.ts)\<close>

datatype PruneReason = DeadGlobs | EmptyContent

record PruneTarget =
  pt_tool :: ToolTarget
  pt_file :: jsstring
  pt_reason :: PruneReason
  pt_message :: jsstring
  pt_sizeBytes :: nat

record PruneResult =
  configsScanned :: nat
  pruneTargets :: "PruneTarget list"

text \<open>The loop of \<open>checkDeadGlobs\<close> that adds up the matches of the specific patterns.\<close>

fun countMatches :: "PathEnv \<Rightarrow> jsstring \<Rightarrow> jsstring list \<Rightarrow> nat \<Rightarrow> nat" where
  "countMatches env root [] totalMatches = totalMatches"
| "countMatches env root (pattern # patterns) totalMatches =
     (if isUnsafe env pattern then countMatches env root patterns totalMatches
      else (case glob env (fullPatternOf env root pattern) of
              Inr matches \<Rightarrow> countMatches env root patterns (totalMatches + length matches)
            | Inl e \<Rightarrow> countMatches env root patterns totalMatches))"

definition checkDeadGlobs :: "PathEnv \<Rightarrow> ExistingConfig \<Rightarrow> jsstring \<Rightarrow> PruneTarget option" where
  "checkDeadGlobs env config root =
     (let patterns = extractGlobPatterns config
      in if length patterns = 0 then None
         else
           let specificPatterns = filter (\<lambda>p. \<not> isUniversal p) patterns
           in if length specificPatterns = 0 then None
              else if countMatches env root specificPatterns 0 = 0 then
                Some \<lparr>pt_tool = tool config, pt_file = filePath config, pt_reason = DeadGlobs,
                  pt_message = lit ''All glob patterns match 0 files: ''
                    @ join (lit '', '') specificPatterns,
                  pt_sizeBytes = sizeBytes config\<rparr>
              else None)"

text \<open>\<open>body.replace(/\s/g, "")\<close> on the body after the frontmatter.\<close>

definition meaningful :: "ExistingConfig \<Rightarrow> jsstring" where
  "meaningful config =
     (let fm = parseFrontmatter (contentOf config);
          body = (if fm_found fm then fm_body fm else contentOf config)
      in filter (\<lambda>c. \<not> isSpace c) body)"

definition checkEmptyContent :: "ExistingConfig \<Rightarrow> PruneTarget option" where
  "checkEmptyContent config =
     (if length (meaningful config) < 10 then
        Some \<lparr>pt_tool = tool config, pt_file = filePath config, pt_reason = EmptyContent,
          pt_message = lit ''Config has '' @ showNat (length (meaningful config))
            @ lit '' chars of content (effectively empty)'',
          pt_sizeBytes = sizeBytes config\<rparr>
      else None)"

text \<open>
  The loop of \<open>findPruneTargets\<close> over the configs found by the scanner, and the targets
  it pushes for one config.
\<close>

definition pruneStep :: "PathEnv \<Rightarrow> jsstring \<Rightarrow> ExistingConfig \<Rightarrow> PruneTarget list" where
  "pruneStep env root config =
     (case checkEmptyContent config of
        Some emptyResult \<Rightarrow> [emptyResult]
      | None \<Rightarrow>
          (case checkDeadGlobs env config root of
             Some deadGlobResult \<Rightarrow> [deadGlobResult]
           | None \<Rightarrow> []))"

fun pruneLoop :: "PathEnv \<Rightarrow> jsstring \<Rightarrow> ExistingConfig list \<Rightarrow> PruneTarget list" where
  "pruneLoop env root [] = []"
| "pruneLoop env root (config # configs) = pruneStep env root config @ pruneLoop env root configs"

text \<open>\<open>findPruneTargets\<close>, given the configs \<open>scanExistingConfigs(projectRoot)\<close> returned.\<close>

definition findPruneTargets :: "PathEnv \<Rightarrow> jsstring \<Rightarrow> ExistingConfig list \<Rightarrow> PruneResult" where
  "findPruneTargets env root configs =
     \<lparr>configsScanned = length configs, pruneTargets = pruneLoop env root configs\<rparr>"

subsection \<open>Sample configs and environment\<close>

definition mdcRust :: jsstring where
  "mdcRust = join [0x0A] (map lit [''---'', ''globs: *.rs'', ''---'', ''Use idiomatic Rust.''])"

definition mdcEmpty :: jsstring where
  "mdcEmpty = join [0x0A] (map lit [''---'', ''globs: *.xyz'', ''---'', [], ''  ''])"


definition cursorConfig :: "string \<Rightarrow> jsstring \<Rightarrow> ExistingConfig" where
  "cursorConfig path src = \<lparr>tool = Cursor, filePath = lit path, sizeBytes = length src,
     content = Some src, isValid = True\<rparr>"

text \<open>
  A project at \<open>/proj\<close> holding the single file \<open>index.ts\<close>, on a POSIX system, with a
  \<open>glob\<close> that rejects an unclosed bracket.
\<close>

definition sampleEnv :: PathEnv where
  "sampleEnv = \<lparr>
     isAbsolute = (\<lambda>p. case p of [] \<Rightarrow> False | c # cs \<Rightarrow> c = 0x2F),
     pathJoin = (\<lambda>a b. a @ [0x2F] @ b),
     glob = (\<lambda>full. if full = lit ''/proj/*.ts'' then Inr [lit ''/proj/index.ts'']
                     else if full = lit ''/proj/['' then Inl (JsError (lit ''invalid pattern''))
                     else Inr [])\<rparr>"

section \<open>Agent extraction (fixer/index.ts)\<close>

text \<open>
  \<open>extractNameFromHeading\<close> searches \<^verbatim>\<open>/^#\s+(.+)$/m\<close>. With the \<open>m\<close> flag \<open>^\<close> matches
  at the start of the string and after a line terminator. \<open>headingAt s\<close> is the group of
  a match starting at the line start \<open>s\<close>: a hash, then white space, then characters up to
  the next line terminator. The white space is taken greedily; when it runs to the end of
  the string, backtracking gives its last character that is not a line terminator (other
  than its first character) to the group.
\<close>

definition headingAt :: "jsstring \<Rightarrow> jsstring option" where
  "headingAt s =
     (case s of
        [] \<Rightarrow> None
      | c # r \<Rightarrow>
          if c \<noteq> 0x23 then None
          else
            let ws = takeWhile isSpace r; after = dropWhile isSpace r
            in if ws = [] then None
               else if after \<noteq> [] then Some (takeWhile (\<lambda>c. \<not> isLineTerminator c) after)
               else (case filter (\<lambda>c. \<not> isLineTerminator c) (tl ws) of
                       [] \<Rightarrow> None
                     | x # xs \<Rightarrow> Some [last (x # xs)]))"

text \<open>The leftmost match; the flag says whether the position is a line start.\<close>

fun headingSearch :: "bool \<Rightarrow> jsstring \<Rightarrow> jsstring option" where
  "headingSearch atLineStart [] = None"
| "headingSearch atLineStart (c # cs) =
     (case (if atLineStart then headingAt (c # cs) else None) of
        Some g \<Rightarrow> Some g
      | None \<Rightarrow> headingSearch (isLineTerminator c) cs)"

text \<open>\<^verbatim>\<open>match?.[1]?.trim() || ""\<close>\<close>

definition extractNameFromHeading :: "jsstring \<Rightarrow> jsstring" where
  "extractNameFromHeading src =
     (case headingSearch True src of None \<Rightarrow> [] | Some g \<Rightarrow> trim g)"

text \<open>
  \<open>extractFirstParagraph\<close>: the first line, trimmed, that is not empty and does not start
  with a hash, a hyphen or an asterisk; the empty string when there is none.
\<close>

fun firstParagraphOf :: "jsstring list \<Rightarrow> jsstring" where
  "firstParagraphOf [] = []"
| "firstParagraphOf (line # lines) =
     (let trimmed = trim line
      in case trimmed of
           [] \<Rightarrow> firstParagraphOf lines
         | c # cs \<Rightarrow> if c \<noteq> 0x23 \<and> c \<noteq> 0x2D \<and> c \<noteq> 0x2A then trimmed
                     else firstParagraphOf lines)"

definition extractFirstParagraph :: "jsstring \<Rightarrow> jsstring" where
  "extractFirstParagraph body = firstParagraphOf (splitLines body)"

text \<open>
  \<open>extractTriggersFromBody\<close> collects the matches of \<^verbatim>\<open>/\*\*([^*]+)\*\*/g\<close>: two
  asterisks, a non-empty run of characters other than the asterisk, two asterisks. The
  search goes on after each match.
\<close>

definition boldAt :: "jsstring \<Rightarrow> (jsstring \<times> jsstring) option" where
  "boldAt s =
     (case stripPrefix [0x2A, 0x2A] s of
        None \<Rightarrow> None
      | Some r \<Rightarrow>
          let inner = takeWhile (\<lambda>c. c \<noteq> 0x2A) r; r2 = dropWhile (\<lambda>c. c \<noteq> 0x2A) r
          in if inner = [] then None
             else (case stripPrefix [0x2A, 0x2A] r2 of
                     None \<Rightarrow> None
                   | Some r3 \<Rightarrow> Some (inner, r3)))"

lemma boldAt_shorter: "boldAt s = Some (inner, r3) \<Longrightarrow> length r3 < length s"
proof -
  have st: "stripPrefix p x = Some y \<Longrightarrow> length x = length p + length y" for p x y :: jsstring
    by (induction p x rule: stripPrefix.induct) (auto split: if_splits)
  have dw: "length (dropWhile P x) \<le> length x" for P and x :: jsstring
    by (induction x) auto
  assume "boldAt s = Some (inner, r3)"
  then obtain r where r: "stripPrefix [0x2A, 0x2A] s = Some r"
    and r3: "stripPrefix [0x2A, 0x2A] (dropWhile (\<lambda>c. c \<noteq> 0x2A) r) = Some r3"
    by (auto simp: boldAt_def Let_def split: option.splits if_splits)
  from st [OF r] st [OF r3] dw [of "\<lambda>c. c \<noteq> 0x2A" r] show ?thesis by simp
qed

function boldSpans :: "jsstring \<Rightarrow> jsstring list" where
  "boldSpans s =
     (case boldAt s of
        Some (inner, rest) \<Rightarrow> inner # boldSpans rest
      | None \<Rightarrow> (case s of [] \<Rightarrow> [] | c # cs \<Rightarrow> boldSpans cs))"
  by pat_completeness auto
termination
  by (relation "measure length") (auto dest: boldAt_shorter)

declare boldSpans.simps [simp del]

text \<open>\<open>String.prototype.toLowerCase\<close> is the argument \<open>toLowerCase\<close>, as above.\<close>

definition extractTriggersFromBody :: "(jsstring \<Rightarrow> jsstring) \<Rightarrow> jsstring \<Rightarrow> jsstring list" where
  "extractTriggersFromBody toLowerCase body =
     (let boldWords = map (\<lambda>m. trim (toLowerCase m)) (boldSpans body)
      in filter (\<lambda>w. length w > 2 \<and> length w < 30) boldWords)"

text \<open>
  \<open>extractTriggers\<close> searches \<^verbatim>\<open>/(?:triggers?|when to activate)[:\s]*(.+)/i\<close>. Without the
  \<open>u\<close> flag, ignoring case makes a letter of the pattern match itself and its upper-case
  form only (\<open>matchCI\<close>). After the keyword, colons and white space are taken greedily
  and the group is the rest of the line; when they run to the end of the string,
  backtracking gives their last character that is not a line terminator to the group
  (\<open>tailGroup\<close>); and when nothing is left for the group after \<open>triggers\<close>, the optional
  \<open>s\<close> is given back and the group starts with it.
\<close>

definition matchCI :: "string \<Rightarrow> jsstring \<Rightarrow> jsstring option" where
  "matchCI pat s =
     (if length pat \<le> length s \<and> asciiLower (take (length pat) s) = lit pat
      then Some (drop (length pat) s) else None)"

definition tailGroup :: "jsstring \<Rightarrow> jsstring option" where
  "tailGroup r =
     (let run = takeWhile (\<lambda>c. c = 0x3A \<or> isSpace c) r;
          rest = dropWhile (\<lambda>c. c = 0x3A \<or> isSpace c) r
      in if rest \<noteq> [] then Some (takeWhile (\<lambda>c. \<not> isLineTerminator c) rest)
         else (case filter (\<lambda>c. \<not> isLineTerminator c) run of
                 [] \<Rightarrow> None
               | x # xs \<Rightarrow> Some [last (x # xs)]))"

definition triggersAt :: "jsstring \<Rightarrow> jsstring option" where
  "triggersAt s =
     (case matchCI ''trigger'' s of
        Some after \<Rightarrow>
          (case after of
             [] \<Rightarrow> tailGroup after
           | c # r \<Rightarrow>
               if c = 0x73 \<or> c = 0x53
               then (case tailGroup r of Some g \<Rightarrow> Some g | None \<Rightarrow> tailGroup after)
               else tailGroup after)
      | None \<Rightarrow>
          (case matchCI ''when to activate'' s of
             Some after \<Rightarrow> tailGroup after
           | None \<Rightarrow> None))"

fun triggersSearch :: "jsstring \<Rightarrow> jsstring option" where
  "triggersSearch [] = triggersAt []"
| "triggersSearch (c # cs) =
     (case triggersAt (c # cs) of Some g \<Rightarrow> Some g | None \<Rightarrow> triggersSearch cs)"

text \<open>\<open>String.prototype.split(/[,;]/)\<close>.\<close>

fun splitCommaSemicolon :: "jsstring \<Rightarrow> jsstring list" where
  "splitCommaSemicolon [] = [[]]"
| "splitCommaSemicolon (c # cs) =
     (if c = 0x2C \<or> c = 0x3B then [] # splitCommaSemicolon cs
      else (case splitCommaSemicolon cs of [] \<Rightarrow> [[c]] | l # ls \<Rightarrow> (c # l) # ls))"

definition extractTriggers :: "(jsstring \<Rightarrow> jsstring) \<Rightarrow> jsstring \<Rightarrow> jsstring list" where
  "extractTriggers toLowerCase src =
     (case triggersSearch src of
        Some g \<Rightarrow> filter (\<lambda>t. t \<noteq> [])
                   (map (\<lambda>t. toLowerCase (trim t)) (splitCommaSemicolon g))
      | None \<Rightarrow> extractTriggersFromBody toLowerCase src)"

text \<open>\<open>parseAgentFromFile\<close>; \<open>None\<close> is the \<open>null\<close> it returns.\<close>

definition parseAgentFromFile :: "(jsstring \<Rightarrow> jsstring) \<Rightarrow> ExistingConfig \<Rightarrow> ParsedAgent option" where
  "parseAgentFromFile toLowerCase config =
     (let src = contentOf config;
          fm = parseFrontmatter src;
          name = (case field fm ''name'' of
                    Some v \<Rightarrow> v
                  | None \<Rightarrow> orElse (extractNameFromHeading src) (filePath config));
          desc = (case field fm ''description'' of
                    Some v \<Rightarrow> v
                  | None \<Rightarrow> extractFirstParagraph (fm_body fm));
          trigs = extractTriggers toLowerCase src
      in if name = [] \<and> desc = [] then None
         else Some \<lparr>pa_tool = tool config, pa_file = filePath config, pa_name = name,
                pa_description = desc, pa_triggers = trigs\<rparr>)"

subsection \<open>Sample agent files\<close>

definition agentWithFrontmatter :: jsstring where
  "agentWithFrontmatter = join [0x0A] (map lit [''---'', ''name: Code Reviewer'', ''---'',
     ''# Reviewer'', ''Check **quality** and **style**.''])"

definition agentWithHeading :: jsstring where
  "agentWithHeading = join [0x0A] (map lit [''# Helper'', ''- item''])"

definition claudeConfig :: "string \<Rightarrow> jsstring option \<Rightarrow> ExistingConfig" where
  "claudeConfig path src = \<lparr>tool = Claude, filePath = lit path, sizeBytes = 0,
     content = src, isValid = True\<rparr>"

section \<open>Properties of the recommendation engine\<close>

lemma of_char_lt_65536: "(of_char c :: nat) < 65536"
  by (rule less_trans [OF nat_of_char_less_256]) simp

lemma lit_eq_iff [simp]: "lit a = lit b \<longleftrightarrow> a = b"
proof -
  have "inj (\<lambda>c. of_nat (of_char c) :: 16 word)"
  proof (rule injI)
    fix c d :: char
    assume h: "(of_nat (of_char c) :: 16 word) = of_nat (of_char d)"
    from h have "(of_char c :: nat) = of_char d"
      using of_char_lt_65536 [of c] of_char_lt_65536 [of d]
      by (simp add: word_of_nat_eq_iff take_bit_nat_eq_self)
    then show "c = d" using inj_of_char by (metis injD)
  qed
  then show ?thesis unfolding lit_def by (simp add: inj_map_eq_map)
qed

lemma length_lit [simp]: "length (lit s) = length s"
  by (simp add: lit_def)

lemmas catalog_defs = AGENT_TEMPLATES_def codeReviewer_def
    testWriter_def dbExpert_def securityAuditor_def componentDesigner_def apiDeveloper_def
    devopsHelper_def perfOptimizer_def docsWriter_def

text \<open>No template of the catalog throws, whatever the snapshot.\<close>

lemma catalog_total:
  "t \<in> set AGENT_TEMPLATES \<Longrightarrow> templateFailure t scan = None"
  by (auto simp: catalog_defs templateFailure_def Let_def)

lemma catalog_ids_distinct: "distinct (map t_id AGENT_TEMPLATES)"
  by (simp add: catalog_defs)

lemma collectAgents_ok:
  "\<forall>t\<in>set ts. templateFailure t scan = None \<Longrightarrow> \<exists>out. collectAgents ts scan recs = Inr out"
proof (induction ts arbitrary: recs)
  case Nil
  then show ?case by simp
next
  case (Cons t ts)
  then show ?case
    by (auto simp: templateFailure_def split: sum.splits if_splits)
qed

lemma collectAgents_fail:
  "\<forall>t\<in>set pre. templateFailure t scan = None \<Longrightarrow> templateFailure t scan = Some e \<Longrightarrow>
   collectAgents (pre @ t # post) scan recs = Inl e"
proof (induction pre arbitrary: recs)
  case Nil
  then show ?case by (auto simp: templateFailure_def split: sum.splits if_splits)
next
  case (Cons p pre)
  then show ?case
    by (auto simp: templateFailure_def split: sum.splits if_splits)
qed

lemma collectAgents_keys:
  "collectAgents ts scan recs = Inr out \<Longrightarrow>
   map (\<lambda>r. (rec_id r, confidence r)) out =
     map (\<lambda>r. (rec_id r, confidence r)) recs
     @ map (\<lambda>t. (t_id t, scoreOf t scan)) (filter (\<lambda>t. 40 \<le> scoreOf t scan) ts)"
proof (induction ts arbitrary: recs)
  case Nil
  then show ?case by simp
next
  case (Cons t ts)
  then show ?case
    by (auto simp: scoreOf_def AgentDetails.extend_def AgentRecommendation.fields_def
        split: sum.splits if_splits)
qed

lemma sortByConfidence_sorted:
  "sorted_wrt (\<lambda>a b. confidence b \<le> confidence a) (sortByConfidence recs)"
proof -
  have "sorted (map (\<lambda>r. - confidence r) (sortByConfidence recs))"
    unfolding sortByConfidence_def by (rule sorted_sort_key)
  then show ?thesis
    by (simp add: sorted_map)
qed

lemma sortByConfidence_stable:
  "filter (\<lambda>r. confidence r = c) (sortByConfidence recs) = filter (\<lambda>r. confidence r = c) recs"
  using sort_key_stable [of "\<lambda>r. - confidence r" "- c" recs]
  by (simp add: sortByConfidence_def)

lemma set_sortByConfidence [simp]: "set (sortByConfidence recs) = set recs"
  by (simp add: sortByConfidence_def)

lemma recommendAgentsFrom_keys:
  assumes "\<forall>t\<in>set ts. templateFailure t scan = None"
  shows "\<exists>out recs. collectAgents ts scan [] = Inr out
     \<and> recommendAgentsFrom ts scan = Inr recs \<and> recs = sortByConfidence out
     \<and> map (\<lambda>r. (rec_id r, confidence r)) out =
         map (\<lambda>t. (t_id t, scoreOf t scan)) (filter (\<lambda>t. 40 \<le> scoreOf t scan) ts)"
proof -
  from collectAgents_ok [OF assms] obtain out where out: "collectAgents ts scan [] = Inr out"
    by blast
  from collectAgents_keys [OF out] show ?thesis
    by (simp add: recommendAgentsFrom_def out)
qed

lemma filter_keys:
  assumes "map (\<lambda>r. (rec_id r, confidence r)) out = map (\<lambda>t. (t_id t, sc t)) ts"
  shows "map rec_id (filter (\<lambda>r. confidence r = c) out) = map t_id (filter (\<lambda>t. sc t = c) ts)"
  using assms
proof (induction out arbitrary: ts)
  case Nil
  then show ?case by simp
next
  case (Cons r out)
  then obtain t ts' where "ts = t # ts'" by (cases ts) auto
  with Cons show ?case by auto
qed

lemma map_insort_key:
  "map h (insort_key (\<lambda>x. k (h x)) x xs) = insort_key k (h x) (map h xs)"
  by (induction xs) simp_all

lemma map_sort_key:
  "map h (sort_key (\<lambda>x. k (h x)) xs) = sort_key k (map h xs)"
  by (induction xs) (simp_all add: map_insort_key)

text \<open>
  The identifiers and confidences returned for the catalog: the templates scoring at least
  40, in catalog order, then sorted stably by descending score.
\<close>

lemma recommendAgents_keysOf:
  "keysOf (recommendAgents scan) =
     sort_key (\<lambda>p. - snd p)
       (map (\<lambda>t. (t_id t, scoreOf t scan)) (filter (\<lambda>t. 40 \<le> scoreOf t scan) AGENT_TEMPLATES))"
proof -
  from recommendAgentsFrom_keys [of AGENT_TEMPLATES scan] catalog_total
  obtain out recs where out: "recommendAgentsFrom AGENT_TEMPLATES scan = Inr recs"
    "recs = sortByConfidence out"
    and keys: "map (\<lambda>r. (rec_id r, confidence r)) out =
         map (\<lambda>t. (t_id t, scoreOf t scan)) (filter (\<lambda>t. 40 \<le> scoreOf t scan) AGENT_TEMPLATES)"
    by blast
  have "map (\<lambda>r. (rec_id r, confidence r)) (sortByConfidence out)
      = sort_key (\<lambda>p. - snd p) (map (\<lambda>r. (rec_id r, confidence r)) out)"
    unfolding sortByConfidence_def
    using map_sort_key [of "\<lambda>r. (rec_id r, confidence r)" "\<lambda>p. - snd p" out] by simp
  with out keys show ?thesis
    by (simp add: keysOf_def recommendAgents_def)
qed

lemma scores_scanBare:
  "scoreOf codeReviewer scanBare = 90" "scoreOf testWriter scanBare = 50"
  "scoreOf dbExpert scanBare = 0" "scoreOf securityAuditor scanBare = 45"
  "scoreOf componentDesigner scanBare = 0" "scoreOf apiDeveloper scanBare = 0"
  "scoreOf devopsHelper scanBare = 0" "scoreOf perfOptimizer scanBare = 0"
  "scoreOf docsWriter scanBare = 30"
  by (simp_all add: scoreOf_def codeReviewer_def testWriter_def dbExpert_def securityAuditor_def
      componentDesigner_def apiDeveloper_def devopsHelper_def perfOptimizer_def docsWriter_def
      scanBare_def someFramework_def)

lemma keys_scanBare:
  "keysOf (recommendAgents scanBare) =
     [(lit ''code-reviewer'', 90), (lit ''test-writer'', 50), (lit ''security-auditor'', 45)]"
  unfolding recommendAgents_keysOf
  by (simp add: AGENT_TEMPLATES_def scores_scanBare)
    (simp add: codeReviewer_def testWriter_def securityAuditor_def)

lemma scores_scanTie:
  "scoreOf codeReviewer scanTie = 90" "scoreOf testWriter scanTie = 70"
  "scoreOf dbExpert scanTie = 80" "scoreOf securityAuditor scanTie = 78"
  "scoreOf componentDesigner scanTie = 0" "scoreOf apiDeveloper scanTie = 80"
  "scoreOf devopsHelper scanTie = 0" "scoreOf perfOptimizer scanTie = 0"
  "scoreOf docsWriter scanTie = 30"
  by (simp_all add: scoreOf_def codeReviewer_def testWriter_def dbExpert_def securityAuditor_def
      componentDesigner_def apiDeveloper_def devopsHelper_def perfOptimizer_def docsWriter_def
      scanTie_def scanBare_def someFramework_def)

lemma keys_scanTie:
  "keysOf (recommendAgents scanTie) =
     [(lit ''code-reviewer'', 90), (lit ''db-expert'', 80), (lit ''api-developer'', 80),
      (lit ''security-auditor'', 78), (lit ''test-writer'', 70)]"
  unfolding recommendAgents_keysOf
  by (simp add: AGENT_TEMPLATES_def scores_scanTie)
    (simp add: codeReviewer_def testWriter_def dbExpert_def securityAuditor_def apiDeveloper_def)

text \<open>
  The loop has no handler: in the engine taken over an arbitrary catalog, the exception of
  the first template that raises ends the call (\<open>collectAgents_fail\<close>). No template of
  the shipped catalog raises, so \<open>recommendAgents\<close> returns for every snapshot.
\<close>

lemma recommendAgents_returns: "\<exists>recs. recommendAgents scan = Inr recs"
  using recommendAgentsFrom_keys [of AGENT_TEMPLATES scan] catalog_total
  unfolding recommendAgents_def by blast

text \<open>
  C3: for every snapshot, \<open>recommendAgents\<close> returns, every recommendation it returns has
  confidence at least 40, and a template of the catalog whose \<open>shouldRecommend\<close> score is
  below 40 has no recommendation in the output.
\<close>

theorem recommendAgents_confidence_floor:
  "\<exists>recs. recommendAgents scan = Inr recs
     \<and> (\<forall>r\<in>set recs. 40 \<le> confidence r)
     \<and> (\<forall>t\<in>set AGENT_TEMPLATES. \<forall>c. shouldRecommend t scan = Inr c \<and> c < 40
           \<longrightarrow> t_id t \<notin> rec_id ` set recs)"
proof -
  from recommendAgentsFrom_keys [of AGENT_TEMPLATES scan] catalog_total
  obtain out recs where out: "recommendAgentsFrom AGENT_TEMPLATES scan = Inr recs"
    "recs = sortByConfidence out"
    and keys: "map (\<lambda>r. (rec_id r, confidence r)) out =
         map (\<lambda>t. (t_id t, scoreOf t scan)) (filter (\<lambda>t. 40 \<le> scoreOf t scan) AGENT_TEMPLATES)"
    by blast
  have mem: "(\<lambda>r. (rec_id r, confidence r)) ` set out
      = (\<lambda>t. (t_id t, scoreOf t scan)) ` {t \<in> set AGENT_TEMPLATES. 40 \<le> scoreOf t scan}"
    using arg_cong [OF keys, of set] by simp
  have floor: "\<forall>r\<in>set recs. 40 \<le> confidence r"
  proof
    fix r assume "r \<in> set recs"
    then have "(rec_id r, confidence r) \<in> (\<lambda>r. (rec_id r, confidence r)) ` set out"
      using out(2) by simp
    with mem show "40 \<le> confidence r" by auto
  qed
  have absent: "\<forall>t\<in>set AGENT_TEMPLATES. \<forall>c. shouldRecommend t scan = Inr c \<and> c < 40
           \<longrightarrow> t_id t \<notin> rec_id ` set recs"
  proof (intro ballI allI impI notI)
    fix t c assume t: "t \<in> set AGENT_TEMPLATES" and c: "shouldRecommend t scan = Inr c \<and> c < 40"
      and "t_id t \<in> rec_id ` set recs"
    then obtain r where r: "r \<in> set out" "rec_id r = t_id t"
      using out(2) by auto
    then have "(rec_id r, confidence r) \<in> (\<lambda>r. (rec_id r, confidence r)) ` set out" by blast
    with mem obtain t' where t': "t' \<in> set AGENT_TEMPLATES" "40 \<le> scoreOf t' scan"
      "t_id t' = rec_id r" by auto
    from t t' r(2) catalog_ids_distinct have "t' = t"
      by (metis distinct_map inj_on_eq_iff)
    with t'(2) c show False by (simp add: scoreOf_def)
  qed
  from out(1) floor absent show ?thesis by (auto simp: recommendAgents_def)
qed

theorem recommendAgents_confidence_floor_witness:
  "keysOf (recommendAgents scanBare) =
     [(lit ''code-reviewer'', 90), (lit ''test-writer'', 50), (lit ''security-auditor'', 45)]
   \<and> docsWriter \<in> set AGENT_TEMPLATES \<and> shouldRecommend docsWriter scanBare = Inr 30
   \<and> (\<exists>recs. recommendAgents scanBare = Inr recs \<and> recs \<noteq> []
        \<and> (\<forall>r\<in>set recs. 40 \<le> confidence r)
        \<and> t_id docsWriter \<notin> rec_id ` set recs)"
proof -
  have d: "docsWriter \<in> set AGENT_TEMPLATES" by (simp add: AGENT_TEMPLATES_def)
  have s: "shouldRecommend docsWriter scanBare = Inr 30"
    by (simp add: docsWriter_def scanBare_def)
  from recommendAgents_confidence_floor [of scanBare]
  obtain recs where recs: "recommendAgents scanBare = Inr recs"
    "\<forall>r\<in>set recs. 40 \<le> confidence r"
    "\<forall>t\<in>set AGENT_TEMPLATES. \<forall>c. shouldRecommend t scanBare = Inr c \<and> c < 40
           \<longrightarrow> t_id t \<notin> rec_id ` set recs"
    by blast
  from recs(3) d s have "t_id docsWriter \<notin> rec_id ` set recs" by auto
  moreover have "recs \<noteq> []" using keys_scanBare recs(1) by (auto simp: keysOf_def)
  ultimately show ?thesis using keys_scanBare d s recs(1,2) by blast
qed

text \<open>
  C8, as the specification states it: the returned list is sorted by strictly descending
  confidence. Two templates can reach the same score: for an Express project with a
  migrations directory and no database tool, the database expert and the API developer both
  score 80 and both are returned, so the confidences are not strictly descending.
\<close>

theorem recommendAgents_strictly_descending_counterexample:
  "keysOf (recommendAgents scanTie) =
     [(lit ''code-reviewer'', 90), (lit ''db-expert'', 80), (lit ''api-developer'', 80),
      (lit ''security-auditor'', 78), (lit ''test-writer'', 70)]
   \<and> \<not> sorted_wrt (>) (map snd (keysOf (recommendAgents scanTie)))"
  by (simp add: keys_scanTie)

text \<open>
  C8, amended: for every snapshot, \<open>recommendAgents\<close> returns a list in which the
  confidence never increases from one recommendation to the next (equal confidences do
  occur), and the recommendations of equal confidence appear in the order in which their
  templates are declared in the catalog.
\<close>

theorem recommendAgents_sorted_stable:
  "\<exists>recs. recommendAgents scan = Inr recs
     \<and> sorted_wrt (\<lambda>a b. confidence b \<le> confidence a) recs
     \<and> (\<forall>c. subseq (map rec_id (filter (\<lambda>r. confidence r = c) recs))
              (map t_id AGENT_TEMPLATES))"
proof -
  from recommendAgentsFrom_keys [of AGENT_TEMPLATES scan] catalog_total
  obtain out recs where out: "recommendAgentsFrom AGENT_TEMPLATES scan = Inr recs"
    "recs = sortByConfidence out"
    and keys: "map (\<lambda>r. (rec_id r, confidence r)) out =
         map (\<lambda>t. (t_id t, scoreOf t scan)) (filter (\<lambda>t. 40 \<le> scoreOf t scan) AGENT_TEMPLATES)"
    by blast
  have "subseq (map rec_id (filter (\<lambda>r. confidence r = c) recs)) (map t_id AGENT_TEMPLATES)" for c
  proof -
    have "map rec_id (filter (\<lambda>r. confidence r = c) recs)
        = map t_id (filter (\<lambda>t. scoreOf t scan = c)
            (filter (\<lambda>t. 40 \<le> scoreOf t scan) AGENT_TEMPLATES))"
      unfolding out(2) sortByConfidence_stable by (rule filter_keys [OF keys])
    then show ?thesis
      by (simp add: subseq_map)
  qed
  with out sortByConfidence_sorted show ?thesis
    by (auto simp: recommendAgents_def)
qed

theorem recommendAgents_sorted_stable_witness:
  "\<exists>recs. recommendAgents scanTie = Inr recs
     \<and> map confidence recs = [90, 80, 80, 78, 70]
     \<and> sorted_wrt (\<lambda>a b. confidence b \<le> confidence a) recs
     \<and> map rec_id (filter (\<lambda>r. confidence r = 80) recs) = [lit ''db-expert'', lit ''api-developer'']
     \<and> subseq (map rec_id (filter (\<lambda>r. confidence r = 80) recs)) (map t_id AGENT_TEMPLATES)"
proof -
  from recommendAgents_sorted_stable [of scanTie]
  obtain recs where recs: "recommendAgents scanTie = Inr recs"
    "sorted_wrt (\<lambda>a b. confidence b \<le> confidence a) recs"
    "\<forall>c. subseq (map rec_id (filter (\<lambda>r. confidence r = c) recs)) (map t_id AGENT_TEMPLATES)"
    by blast
  from keys_scanTie recs(1)
  have k: "map (\<lambda>r. (rec_id r, confidence r)) recs =
     [(lit ''code-reviewer'', 90), (lit ''db-expert'', 80), (lit ''api-developer'', 80),
      (lit ''security-auditor'', 78), (lit ''test-writer'', 70)]"
    by (simp add: keysOf_def)
  from arg_cong [OF k, of "map snd"] have c: "map confidence recs = [90, 80, 80, 78, 70]"
    by (simp add: comp_def)
  have "map rec_id (filter (\<lambda>r. confidence r = 80) recs)
      = map fst (filter (\<lambda>p. snd p = 80) (map (\<lambda>r. (rec_id r, confidence r)) recs))"
    by (simp add: filter_map comp_def)
  also have "\<dots> = [lit ''db-expert'', lit ''api-developer'']"
    unfolding k by simp
  finally have f: "map rec_id (filter (\<lambda>r. confidence r = 80) recs)
      = [lit ''db-expert'', lit ''api-developer'']" .
  from recs(3) have s: "subseq (map rec_id (filter (\<lambda>r. confidence r = 80) recs))
      (map t_id AGENT_TEMPLATES)" by (rule spec)
  show ?thesis by (intro exI [of _ recs] conjI recs(1) recs(2) c f s)
qed

section \<open>Properties of the Windsurf size enforcement\<close>

lemma length_truncationMarker: "length truncationMarker = 50"
  by (simp add: truncationMarker_def)

lemma enforce_fits:
  "length (gf_content f) \<le> WINDSURF_CHAR_LIMIT \<Longrightarrow> enforceCharLimit f = (f, [])"
  by (simp add: enforceCharLimit_def)

lemma enforce_truncates:
  assumes "length (gf_content f) > WINDSURF_CHAR_LIMIT"
  shows "gf_content (fst (enforceCharLimit f)) = take (WINDSURF_CHAR_LIMIT - 50) (gf_content f) @ truncationMarker"
    and "length (gf_content (fst (enforceCharLimit f))) = WINDSURF_CHAR_LIMIT"
    and "gf_sizeBytes (fst (enforceCharLimit f)) = byteLength (gf_content (fst (enforceCharLimit f)))"
    and "length (snd (enforceCharLimit f)) = 1"
    and "gf_path (fst (enforceCharLimit f)) = gf_path f"
    and "gf_description (fst (enforceCharLimit f)) = gf_description f"
  using assms
  by (simp_all add: enforceCharLimit_def Let_def length_truncationMarker WINDSURF_CHAR_LIMIT_def)

lemma enforce_length_le: "length (gf_content (fst (enforceCharLimit f))) \<le> WINDSURF_CHAR_LIMIT"
  using enforce_truncates(2) [of f] enforce_fits [of f]
  by (cases "length (gf_content f) > WINDSURF_CHAR_LIMIT") simp_all

lemma enforce_idem: "enforceCharLimit (fst (enforceCharLimit f)) = (fst (enforceCharLimit f), [])"
  by (rule enforce_fits) (rule enforce_length_le)

lemma byteLength_ascii: "\<forall>c\<in>set s. c < 0x80 \<Longrightarrow> byteLength s = length s"
  by (induction s rule: byteLength.induct) simp_all

lemma marker_ascii: "\<forall>c\<in>set truncationMarker. c < 0x80"
  by (simp add: truncationMarker_def lit_def)

lemma byteLength_truncated_longFile:
  "byteLength (replicate 5950 0x61 @ truncationMarker) = 6000"
proof -
  have "\<forall>c\<in>set (replicate 5950 (0x61 :: 16 word) @ truncationMarker). c < 0x80"
    using marker_ascii by auto
  from byteLength_ascii [OF this] show ?thesis
    by (simp add: length_truncationMarker)
qed


text \<open>
  C2: the size-enforcement step of the Windsurf serializer. Content of at most 6000
  characters is returned unchanged with no warning. Longer content is replaced by its first
  6000 - 50 characters followed by the truncation marker, which has 50 characters, so the
  new content has exactly 6000 characters; \<open>sizeBytes\<close> is the UTF-8 length of the new
  content, and exactly one warning is emitted. Applying the step to its own result changes
  nothing and warns about nothing. \<open>generate\<close> returns the file and the warnings of this
  step.
\<close>

theorem enforceCharLimit_idempotent:
  "(length (gf_content f) \<le> WINDSURF_CHAR_LIMIT \<longrightarrow> enforceCharLimit f = (f, []))
   \<and> (length (gf_content f) > WINDSURF_CHAR_LIMIT \<longrightarrow>
        gf_content (fst (enforceCharLimit f))
          = take (WINDSURF_CHAR_LIMIT - 50) (gf_content f) @ truncationMarker
      \<and> length (gf_content (fst (enforceCharLimit f))) = 6000
      \<and> gf_sizeBytes (fst (enforceCharLimit f))
          = byteLength (gf_content (fst (enforceCharLimit f)))
      \<and> length (snd (enforceCharLimit f)) = 1)
   \<and> WINDSURF_CHAR_LIMIT = 6000 \<and> length truncationMarker = 50
   \<and> length (gf_content (fst (enforceCharLimit f))) \<le> 6000
   \<and> enforceCharLimit (fst (enforceCharLimit f)) = (fst (enforceCharLimit f), [])
   \<and> files (windsurfGenerate scan recs)
        = [fst (enforceCharLimit (generateWindsurfRules scan recs))]
   \<and> warnings (windsurfGenerate scan recs)
        = snd (enforceCharLimit (generateWindsurfRules scan recs))"
proof -
  have gen: "files (windsurfGenerate scan recs)
        = [fst (enforceCharLimit (generateWindsurfRules scan recs))]"
    "warnings (windsurfGenerate scan recs)
        = snd (enforceCharLimit (generateWindsurfRules scan recs))"
    by (simp_all add: windsurfGenerate_def split_beta)
  have lim: "WINDSURF_CHAR_LIMIT = 6000" by (simp add: WINDSURF_CHAR_LIMIT_def)
  show ?thesis
    using enforce_fits [of f] enforce_truncates (1-4) [of f] enforce_length_le [of f]
      enforce_idem [of f] length_truncationMarker gen lim
    by (intro conjI impI) simp_all
qed

theorem enforceCharLimit_idempotent_witness:
  "enforceCharLimit shortFile = (shortFile, [])
   \<and> gf_content (fst (enforceCharLimit longFile)) = replicate 5950 0x61 @ truncationMarker
   \<and> length (gf_content (fst (enforceCharLimit longFile))) = 6000
   \<and> gf_sizeBytes (fst (enforceCharLimit longFile)) = 6000
   \<and> length (snd (enforceCharLimit longFile)) = 1
   \<and> enforceCharLimit (fst (enforceCharLimit longFile)) = (fst (enforceCharLimit longFile), [])"
proof -
  have s: "length (gf_content shortFile) \<le> WINDSURF_CHAR_LIMIT"
    by (simp add: shortFile_def WINDSURF_CHAR_LIMIT_def)
  have l: "length (gf_content longFile) > WINDSURF_CHAR_LIMIT"
    by (simp add: longFile_def WINDSURF_CHAR_LIMIT_def)
  have c: "take (WINDSURF_CHAR_LIMIT - 50) (gf_content longFile) = replicate 5950 0x61"
    by (simp add: longFile_def WINDSURF_CHAR_LIMIT_def)
  from s l enforceCharLimit_idempotent [of shortFile] enforceCharLimit_idempotent [of longFile]
  show ?thesis
    by (simp add: c byteLength_truncated_longFile)
qed

section \<open>Properties of the overlap detector\<close>

lemma setSize_card: "setSize xs = card (set xs)"
  by (simp add: setSize_def length_remdups_card_conv)

lemma shared_distinct:
  "distinct xs \<Longrightarrow> length (filter (\<lambda>t. t \<in> B) xs) = card (set xs \<inter> B)"
proof -
  assume d: "distinct xs"
  then have "distinct (filter (\<lambda>t. t \<in> B) xs)" by simp
  from distinct_card [OF this]
  have "length (filter (\<lambda>t. t \<in> B) xs) = card (set (filter (\<lambda>t. t \<in> B) xs))"
    by (rule sym)
  also have "set (filter (\<lambda>t. t \<in> B) xs) = set xs \<inter> B" by auto
  finally show ?thesis .
qed

text \<open>
  For records whose trigger arrays have no repeated entry, \<open>detectOverlaps\<close> pushes one
  issue for exactly the pairs \<open>i < j\<close> that meet the criterion on the trigger sets, and
  the criterion does not depend on the order of the pair.
\<close>

lemma overlapsWith_distinct:
  "distinct (pa_triggers a) \<Longrightarrow>
   overlapsWith a bs = map (\<lambda>b. overlapIssue a b (sharedOf a b)) (filter (overlapSpec a) bs)"
proof (induction bs)
  case Nil
  then show ?case by simp
next
  case (Cons b bs)
  have "pa_triggers a \<noteq> [] \<Longrightarrow> card (set (pa_triggers a)) > 0"
    by (simp add: card_gt_0_iff)
  moreover have "pa_triggers b \<noteq> [] \<Longrightarrow> card (set (pa_triggers b)) > 0"
    by (simp add: card_gt_0_iff)
  ultimately show ?case using Cons
    by (auto simp: Let_def setSize_card shared_distinct overlapSpec_def sharedOf_def)
qed

lemma detectOverlaps_distinct:
  "\<forall>a\<in>set ags. distinct (pa_triggers a) \<Longrightarrow>
   detectOverlaps ags =
     map (\<lambda>(a, b). overlapIssue a b (sharedOf a b))
       (filter (\<lambda>(a, b). overlapSpec a b) (pairsOf ags))"
proof (induction ags)
  case Nil
  then show ?case by simp
next
  case (Cons a rest)
  then show ?case
    by (simp add: overlapsWith_distinct filter_map comp_def)
qed

lemma overlapSpec_sym: "overlapSpec a b = overlapSpec b a"
  by (auto simp: overlapSpec_def Int_commute min.commute)


text \<open>
  C4: overlap detection is to flag a pair of agent records exactly when both trigger sets
  are non-empty and the shared triggers are more than half of the smaller set, whatever the
  order of the pair. The code counts the shared triggers in the trigger array of the first
  record of the pair, repetitions included, and divides by the sizes of the de-duplicated
  sets. A record whose triggers are review, review, lint, style and a record whose triggers
  are review, bugs, perf share one trigger out of three, which is not more than half: the
  pair is flagged when the first record comes first (two of three) and not flagged when it
  comes second (one of three).
\<close>

theorem detectOverlaps_repeated_trigger:
  "map fi_agents (detectOverlaps [agentDup, agentOther])
     = [[lit ''.claude/agents/reviewer.md'', lit ''.claude/agents/checker.md'']]
   \<and> detectOverlaps [agentOther, agentDup] = []
   \<and> \<not> overlapSpec agentDup agentOther"
  by (simp add: agentDup_def agentOther_def setSize_def overlapIssue_def overlapSpec_def Let_def)

section \<open>Properties of the duplicate detector\<close>

lemma firstOccurrences_snoc:
  "firstOccurrences (xs @ [x]) =
     (if x \<in> set (firstOccurrences xs) then firstOccurrences xs else firstOccurrences xs @ [x])"
  by (simp add: firstOccurrences_def)

lemma firstOccurrences_set [simp]: "set (firstOccurrences xs) = set xs"
  by (induction xs rule: rev_induct) (auto simp: firstOccurrences_snoc firstOccurrences_def)

lemma firstOccurrences_distinct [simp]: "distinct (firstOccurrences xs)"
  by (induction xs rule: rev_induct) (auto simp: firstOccurrences_snoc firstOccurrences_def)

lemma mapPush_groups:
  assumes "distinct K" 
  shows "mapPush k a (map (\<lambda>k'. (k', filter (\<lambda>x. key x = k') xs)) K)
     = (if k \<in> set K
        then map (\<lambda>k'. (k', filter (\<lambda>x. key x = k') xs @ (if k' = k then [a] else []))) K
        else map (\<lambda>k'. (k', filter (\<lambda>x. key x = k') xs)) K @ [(k, [a])])"
  using assms by (induction K) auto

lemma byNameOf_groups:
  "byNameOf lower ags =
     map (\<lambda>k. (k, filter (\<lambda>a. lower (pa_name a) = k) ags))
       (firstOccurrences (map (\<lambda>a. lower (pa_name a)) ags))"
proof (induction ags rule: rev_induct)
  case Nil
  then show ?case by (simp add: byNameOf_def firstOccurrences_def)
next
  case (snoc a ags)
  let ?key = "\<lambda>a. lower (pa_name a)"
  let ?K = "firstOccurrences (map ?key ags)"
  have step: "byNameOf lower (ags @ [a]) = mapPush (?key a) a (byNameOf lower ags)"
    by (simp add: byNameOf_def)
  have notin: "?key a \<notin> set ?K \<Longrightarrow> filter (\<lambda>x. ?key x = ?key a) ags = []"
    by (auto simp: filter_empty_conv) (metis image_eqI)
  show ?case
    unfolding step snoc.IH
    by (subst mapPush_groups) (auto simp: firstOccurrences_snoc notin)
qed

lemma duplicateIssues_filter:
  "duplicateIssues entries = map duplicateIssue (filter flaggedGroup (map snd entries))"
proof (induction entries rule: duplicateIssues.induct)
  case 1
  then show ?case by simp
next
  case (2 name grp entries)
  have "card (pa_tool ` set grp) > 1 \<Longrightarrow> length grp > 1"
    by (metis card_image_le card_length le_trans not_le List.finite_set)
  then show ?case using 2
    by (auto simp: flaggedGroup_def setSize_card)
qed

lemma detectDuplicates_groups:
  "detectDuplicates lower ags = map duplicateIssue (filter flaggedGroup (groupsByName lower ags))"
  by (simp add: detectDuplicates_def duplicateIssues_filter byNameOf_groups groupsByName_def comp_def)


lemmas sample_defs = reviewerClaude_def reviewerCopilot_def helperOne_def helperTwo_def
  docsClaude_def docsCopilot_def

lemma lit_Cons: "lit (c # s) = of_nat (of_char c) # lit s" and lit_Nil: "lit [] = []"
  by (simp_all add: lit_def)

lemma sample_keys:
  "map (\<lambda>a. asciiLower (pa_name a)) sampleAgents =
     [lit ''code reviewer'', lit ''helper'', lit ''docs'', lit ''code reviewer'', lit ''helper'',
      lit ''docs'']"
  by (simp add: sampleAgents_def sample_defs asciiLower_def lit_def)

lemma sample_groups:
  "groupsByName asciiLower sampleAgents =
     [[reviewerClaude, reviewerCopilot], [helperOne, helperTwo], [docsClaude, docsCopilot]]"
proof -
  have k: "asciiLower (pa_name reviewerClaude) = lit ''code reviewer''"
    "asciiLower (pa_name reviewerCopilot) = lit ''code reviewer''"
    "asciiLower (pa_name helperOne) = lit ''helper''"
    "asciiLower (pa_name helperTwo) = lit ''helper''"
    "asciiLower (pa_name docsClaude) = lit ''docs''"
    "asciiLower (pa_name docsCopilot) = lit ''docs''"
    using sample_keys by (simp_all add: sampleAgents_def)
  show ?thesis
    unfolding groupsByName_def sample_keys
    by (simp add: firstOccurrences_def sampleAgents_def k)
qed

lemma sample_flags:
  "flaggedGroup [reviewerClaude, reviewerCopilot]"
  "\<not> flaggedGroup [helperOne, helperTwo]"
  "\<not> flaggedGroup [docsClaude, docsCopilot]"
  by (simp_all add: flaggedGroup_def sample_defs)


text \<open>
  C7: duplicate-identity detection groups the records by lower-cased name, in the order in
  which the names first appear, and pushes one issue for exactly the groups whose records
  span more than one tool and carry more than one distinct description. A group whose
  records all belong to one tool is not flagged, and neither is a group whose records all
  have the same description.
\<close>

theorem detectDuplicates_flags_iff:
  "detectDuplicates toLowerCase ags
     = map duplicateIssue (filter flaggedGroup (groupsByName toLowerCase ags))
   \<and> (flaggedGroup g \<longleftrightarrow> 1 < card (pa_tool ` set g) \<and> 1 < card (pa_description ` set g))
   \<and> ((\<forall>a\<in>set g. pa_tool a = t) \<longrightarrow> \<not> flaggedGroup g)
   \<and> ((\<forall>a\<in>set g. pa_description a = d) \<longrightarrow> \<not> flaggedGroup g)"
proof -
  have one: "card (f ` set g) \<le> 1" if "\<forall>a\<in>set g. f a = v" for f :: "ParsedAgent \<Rightarrow> 'b" and v
  proof -
    from that have "f ` set g \<subseteq> {v}" by auto
    then have "card (f ` set g) \<le> card {v}" by (intro card_mono) simp_all
    then show ?thesis by simp
  qed
  show ?thesis
    using one [of pa_tool t] one [of pa_description d]
    by (auto simp: detectDuplicates_groups flaggedGroup_def)
qed

theorem detectDuplicates_flags_iff_witness:
  "groupsByName asciiLower sampleAgents =
     [[reviewerClaude, reviewerCopilot], [helperOne, helperTwo], [docsClaude, docsCopilot]]
   \<and> detectDuplicates asciiLower sampleAgents = [duplicateIssue [reviewerClaude, reviewerCopilot]]
   \<and> map fi_agents (detectDuplicates asciiLower sampleAgents)
       = [[lit ''.claude/agents/reviewer.md'', lit ''.github/agents/reviewer.agent.md'']]
   \<and> pa_tool helperOne = Claude \<and> pa_tool helperTwo = Claude
   \<and> \<not> flaggedGroup [helperOne, helperTwo]
   \<and> pa_description docsClaude = lit ''Write documentation''
   \<and> pa_description docsCopilot = lit ''Write documentation''
   \<and> \<not> flaggedGroup [docsClaude, docsCopilot]"
proof -
  have t: "\<forall>a\<in>set [helperOne, helperTwo]. pa_tool a = Claude"
    by (simp add: sample_defs)
  have d: "\<forall>a\<in>set [docsClaude, docsCopilot]. pa_description a = lit ''Write documentation''"
    by (simp add: sample_defs)
  from detectDuplicates_flags_iff [of asciiLower sampleAgents "[helperOne, helperTwo]" Claude "[]"] t
  have h: "\<not> flaggedGroup [helperOne, helperTwo]" by blast
  from detectDuplicates_flags_iff [of asciiLower sampleAgents "[docsClaude, docsCopilot]" Claude
      "lit ''Write documentation''"] d
  have dd: "\<not> flaggedGroup [docsClaude, docsCopilot]" by blast
  from detectDuplicates_flags_iff [of asciiLower sampleAgents "[]" Claude "[]"]
  have e: "detectDuplicates asciiLower sampleAgents
     = map duplicateIssue (filter flaggedGroup (groupsByName asciiLower sampleAgents))" by blast
  have r: "detectDuplicates asciiLower sampleAgents = [duplicateIssue [reviewerClaude, reviewerCopilot]]"
    unfolding e sample_groups using h dd sample_flags(1) by simp
  have f: "map fi_agents (detectDuplicates asciiLower sampleAgents)
       = [[lit ''.claude/agents/reviewer.md'', lit ''.github/agents/reviewer.agent.md'']]"
    unfolding r by (simp add: duplicateIssue_def sample_defs)
  show ?thesis using sample_groups r f h dd t d by simp
qed


section \<open>Properties of frontmatter parsing, the glob check and the prune analyzer\<close>

lemma stripPrefix_Some: "stripPrefix p s = Some r \<longleftrightarrow> s = p @ r"
  by (induction p s rule: stripPrefix.induct) auto

lemma stripNewline_Some:
  "stripNewline s = Some r \<longleftrightarrow> s = [0x0D, 0x0A] @ r \<or> s = [0x0A] @ r"
  by (auto simp: stripNewline_def stripPrefix_Some split: option.splits)

lemma splitLines_nonempty [simp]: "splitLines s \<noteq> []"
  by (induction s rule: splitLines.induct) (auto split: list.splits)

lemma hd_splitLines_LF [simp]: "hd (splitLines (0x0A # s)) = []"
  by (cases s) simp_all

lemma hd_splitLines_CRLF [simp]: "hd (splitLines (0x0D # 0x0A # s)) = []"
  by simp

lemma hd_splitLines_other:
  "c \<noteq> 0x0A \<Longrightarrow> c \<noteq> 0x0D \<Longrightarrow> hd (splitLines (c # s)) = c # hd (splitLines s)"
  by (cases s) (auto split: list.splits)

lemma lit_hyphens: "lit ''---'' = [0x2D, 0x2D, 0x2D]"
  by (simp add: lit_def)

lemma openDelimiter_first_line:
  assumes "openDelimiter src = Some r"
  shows "hd (splitLines src) = lit ''---''"
proof -
  from assms obtain r0 where r0: "src = lit ''---'' @ r0" and nl: "stripNewline r0 = Some r"
    by (auto simp: openDelimiter_def stripPrefix_Some split: option.splits)
  from nl have "r0 = [0x0D, 0x0A] @ r \<or> r0 = [0x0A] @ r"
    by (simp add: stripNewline_Some)
  then have e: "hd (splitLines r0) = []" by auto
  have ne: "(0x2D :: 16 word) \<noteq> 0x0A" "(0x2D :: 16 word) \<noteq> 0x0D" by simp_all
  have step: "hd (splitLines (0x2D # s)) = 0x2D # hd (splitLines s)" for s
    using ne by (rule hd_splitLines_other)
  show ?thesis
    unfolding r0 lit_hyphens by (simp only: append.simps step e)
qed

lemma parseFrontmatter_not_found:
  "openDelimiter src = None \<Longrightarrow>
   parseFrontmatter src = \<lparr>fm_found = False, fm_fields = Map.empty, fm_body = src\<rparr>"
  by (simp add: parseFrontmatter_def)

text \<open>
  C9: frontmatter is recognized only at the very start of the content. For every content
  whose first line (up to the first line break) is not exactly three hyphens, for example
  content with a leading blank line or with text before the delimiter,
  \<open>parseFrontmatter\<close> returns \<open>found = false\<close>, no field, and the entire content as the
  body; downstream, no glob pattern is extracted from such a file.
\<close>

theorem parseFrontmatter_start_only:
  "hd (splitLines src) \<noteq> lit ''---'' \<longrightarrow>
     parseFrontmatter src = \<lparr>fm_found = False, fm_fields = Map.empty, fm_body = src\<rparr>
     \<and> (content config = Some src \<longrightarrow> extractGlobPatterns config = [])"
proof (intro impI conjI)
  assume h: "hd (splitLines src) \<noteq> lit ''---''"
  then have "openDelimiter src = None"
    using openDelimiter_first_line [of src] by (cases "openDelimiter src") auto
  then show p: "parseFrontmatter src = \<lparr>fm_found = False, fm_fields = Map.empty, fm_body = src\<rparr>"
    by (rule parseFrontmatter_not_found)
  assume "content config = Some src"
  with p show "extractGlobPatterns config = []"
    by (simp add: extractGlobPatterns_def contentOf_def)
qed






lemma pruneLoop_concat: "pruneLoop env root configs = concat (map (pruneStep env root) configs)"
  by (induction configs) simp_all

lemma pruneStep_file:
  "t \<in> set (pruneStep env root config) \<Longrightarrow>
   pt_file t = filePath config \<and> pt_tool t = tool config"
  by (auto simp: pruneStep_def checkEmptyContent_def checkDeadGlobs_def Let_def
      split: option.splits if_splits)

lemma pruneStep_length: "length (pruneStep env root config) \<le> 1"
  by (simp add: pruneStep_def split: option.splits)

lemma pruneLoop_files:
  "t \<in> set (pruneLoop env root cs) \<Longrightarrow> pt_file t \<in> filePath ` set cs"
proof (induction cs)
  case Nil
  then show ?case by simp
next
  case (Cons c cs)
  from Cons.prems have "t \<in> set (pruneStep env root c) \<or> t \<in> set (pruneLoop env root cs)"
    by simp
  then show ?case
  proof
    assume "t \<in> set (pruneStep env root c)"
    then have "pt_file t = filePath c" by (rule pruneStep_file [THEN conjunct1])
    then show ?thesis by simp
  next
    assume "t \<in> set (pruneLoop env root cs)"
    then have "pt_file t \<in> filePath ` set cs" by (rule Cons.IH)
    then show ?thesis by simp
  qed
qed

lemma pruneLoop_distinct:
  "distinct (map filePath configs) \<Longrightarrow> distinct (map pt_file (pruneLoop env root configs))"
proof (induction configs)
  case Nil
  then show ?case by simp
next
  case (Cons c cs)
  have one: "distinct (map pt_file (pruneStep env root c))"
    using pruneStep_length [of env root c]
    by (cases "pruneStep env root c") simp_all
  from Cons.prems have notin: "filePath c \<notin> filePath ` set cs" and dcs: "distinct (map filePath cs)"
    by simp_all
  have disj: "set (map pt_file (pruneStep env root c)) \<inter> set (map pt_file (pruneLoop env root cs)) = {}"
  proof (rule ccontr)
    assume "\<not> ?thesis"
    then obtain f where f1: "f \<in> set (map pt_file (pruneStep env root c))"
      and f2: "f \<in> set (map pt_file (pruneLoop env root cs))" by blast
    from f1 obtain x where "x \<in> set (pruneStep env root c)" "f = pt_file x" by auto
    then have "f = filePath c" using pruneStep_file [of x env root c] by simp
    moreover from f2 obtain y where "y \<in> set (pruneLoop env root cs)" "f = pt_file y" by auto
    then have "f \<in> filePath ` set cs" using pruneLoop_files [of y env root cs] by simp
    ultimately show False using notin by simp
  qed
  show ?case
    using one Cons.IH [OF dcs] disj by simp
qed

text \<open>
  C5: for every config the prune analyzer reports at most one candidate. When the body
  after the frontmatter, with white space removed, has fewer than 10 characters, the
  candidate has reason empty-content and the result does not depend on glob resolution
  (the dead-glob check is skipped); otherwise there is no candidate or one with reason
  dead-globs. A candidate carries the path of its config, so with the distinct paths the
  scanner returns no file is reported twice, in particular never with both reasons.
\<close>

theorem findPruneTargets_single_reason:
  "pruneTargets (findPruneTargets env root configs) = concat (map (pruneStep env root) configs)
   \<and> length (pruneStep env root config) \<le> 1
   \<and> (length (meaningful config) < 10 \<longrightarrow>
        map pt_reason (pruneStep env root config) = [EmptyContent]
        \<and> pruneStep env root config = pruneStep env' root config)
   \<and> (length (meaningful config) \<ge> 10 \<longrightarrow>
        pruneStep env root config = []
        \<or> map pt_reason (pruneStep env root config) = [DeadGlobs])
   \<and> (\<forall>t\<in>set (pruneStep env root config). pt_file t = filePath config)
   \<and> (distinct (map filePath configs) \<longrightarrow>
        distinct (map pt_file (pruneTargets (findPruneTargets env root configs))))"
proof -
  have a: "length (meaningful config) < 10 \<longrightarrow>
        map pt_reason (pruneStep env root config) = [EmptyContent]
        \<and> pruneStep env root config = pruneStep env' root config"
    by (simp add: pruneStep_def checkEmptyContent_def)
  have b: "length (meaningful config) \<ge> 10 \<longrightarrow>
        pruneStep env root config = []
        \<or> map pt_reason (pruneStep env root config) = [DeadGlobs]"
    by (simp add: pruneStep_def checkEmptyContent_def checkDeadGlobs_def Let_def
        split: option.splits)
  have c: "\<forall>t\<in>set (pruneStep env root config). pt_file t = filePath config"
    by (rule ballI) (rule pruneStep_file [THEN conjunct1])
  have d: "pruneTargets (findPruneTargets env root configs)
      = concat (map (pruneStep env root) configs)"
    by (simp add: findPruneTargets_def pruneLoop_concat)
  have e: "distinct (map filePath configs) \<longrightarrow>
        distinct (map pt_file (pruneTargets (findPruneTargets env root configs)))"
    using pruneLoop_distinct [of configs env root] by (simp add: findPruneTargets_def)
  show ?thesis
    by (intro conjI d pruneStep_length a b c e)
qed

theorem parseFrontmatter_start_only_witness:
  "hd (splitLines (0x0A # mdcRust)) = []
   \<and> parseFrontmatter (0x0A # mdcRust)
       = \<lparr>fm_found = False, fm_fields = Map.empty, fm_body = 0x0A # mdcRust\<rparr>
   \<and> extractGlobPatterns (cursorConfig ''.cursor/rules/rust.mdc'' (0x0A # mdcRust)) = []
   \<and> extractGlobPatterns (cursorConfig ''.cursor/rules/rust.mdc'' mdcRust) = [lit ''*.rs'']"
proof -
  have h: "hd (splitLines (0x0A # mdcRust)) \<noteq> lit ''---''"
    by (simp add: lit_hyphens)
  have c: "content (cursorConfig ''.cursor/rules/rust.mdc'' (0x0A # mdcRust)) = Some (0x0A # mdcRust)"
    by (simp add: cursorConfig_def)
  have e: "extractGlobPatterns (cursorConfig ''.cursor/rules/rust.mdc'' mdcRust) = [lit ''*.rs'']"
    by code_simp
  from parseFrontmatter_start_only
    [of "0x0A # mdcRust" "cursorConfig ''.cursor/rules/rust.mdc'' (0x0A # mdcRust)"] h c e
  show ?thesis by simp
qed




lemma prune_facts:
  "length (meaningful (cursorConfig ''.cursor/rules/empty.mdc'' mdcEmpty)) = 0"
  "length (meaningful (cursorConfig ''.cursor/rules/rust.mdc'' mdcRust)) = 17"
  "map pt_reason (pruneStep sampleEnv (lit ''/proj'') (cursorConfig ''.cursor/rules/rust.mdc'' mdcRust))
     = [DeadGlobs]"
  by code_simp+

theorem findPruneTargets_single_reason_witness:
  "map pt_reason (pruneTargets (findPruneTargets sampleEnv (lit ''/proj'')
      [cursorConfig ''.cursor/rules/empty.mdc'' mdcEmpty,
       cursorConfig ''.cursor/rules/rust.mdc'' mdcRust]))
     = [EmptyContent, DeadGlobs]
   \<and> length (meaningful (cursorConfig ''.cursor/rules/empty.mdc'' mdcEmpty)) = 0
   \<and> extractGlobPatterns (cursorConfig ''.cursor/rules/empty.mdc'' mdcEmpty) = [lit ''*.xyz'']
   \<and> length (meaningful (cursorConfig ''.cursor/rules/rust.mdc'' mdcRust)) = 17
   \<and> distinct (map pt_file (pruneTargets (findPruneTargets sampleEnv (lit ''/proj'')
      [cursorConfig ''.cursor/rules/empty.mdc'' mdcEmpty,
       cursorConfig ''.cursor/rules/rust.mdc'' mdcRust])))"
proof -
  let ?e = "cursorConfig ''.cursor/rules/empty.mdc'' mdcEmpty"
  let ?r = "cursorConfig ''.cursor/rules/rust.mdc'' mdcRust"
  note t = findPruneTargets_single_reason [of sampleEnv "lit ''/proj''" "[?e, ?r]"]
  have e: "map pt_reason (pruneStep sampleEnv (lit ''/proj'') ?e) = [EmptyContent]"
    using t [of ?e sampleEnv] prune_facts(1) by simp
  have d: "distinct (map filePath [?e, ?r])"
    by (simp add: cursorConfig_def)
  have g: "extractGlobPatterns ?e = [lit ''*.xyz'']" by code_simp
  have p: "pruneTargets (findPruneTargets sampleEnv (lit ''/proj'') [?e, ?r])
      = concat (map (pruneStep sampleEnv (lit ''/proj'')) [?e, ?r])"
    using t [of ?e sampleEnv] by simp
  have dd: "distinct (map pt_file (pruneTargets (findPruneTargets sampleEnv (lit ''/proj'') [?e, ?r])))"
    by (rule t [of ?e sampleEnv, THEN conjunct2, THEN conjunct2, THEN conjunct2,
          THEN conjunct2, THEN conjunct2, THEN mp, OF d])
  have m: "map pt_reason (pruneTargets (findPruneTargets sampleEnv (lit ''/proj'') [?e, ?r]))
     = [EmptyContent, DeadGlobs]"
    unfolding p using e prune_facts(3) by simp
  show ?thesis
    by (intro conjI m prune_facts(1) prune_facts(2) g dd)
qed

section \<open>Properties of agent extraction\<close>

text \<open>
  A config with a non-empty path always gives a record, whose name is the frontmatter name,
  else the heading found, else the path.
\<close>

lemma parseAgentFromFile_some:
  "filePath config \<noteq> [] \<longrightarrow>
     (\<exists>agent. parseAgentFromFile toLowerCase config = Some agent
        \<and> pa_name agent \<noteq> []
        \<and> pa_name agent =
            (case field (parseFrontmatter (contentOf config)) ''name'' of
               Some v \<Rightarrow> v
             | None \<Rightarrow> if extractNameFromHeading (contentOf config) \<noteq> []
                        then extractNameFromHeading (contentOf config)
                        else filePath config)
        \<and> (field (parseFrontmatter (contentOf config)) ''description'' = None
             \<and> extractFirstParagraph (fm_body (parseFrontmatter (contentOf config))) = []
             \<longrightarrow> pa_description agent = []))"
proof
  assume p: "filePath config \<noteq> []"
  let ?fm = "parseFrontmatter (contentOf config)"
  let ?name = "case field ?fm ''name'' of Some v \<Rightarrow> v
               | None \<Rightarrow> orElse (extractNameFromHeading (contentOf config)) (filePath config)"
  have f: "field ?fm ''name'' = Some v \<Longrightarrow> v \<noteq> []" for v
    by (simp add: field_def split: option.splits if_splits)
  have n: "?name \<noteq> []"
    using p f by (cases "field ?fm ''name''") (simp_all add: orElse_def)
  then show "\<exists>agent. parseAgentFromFile toLowerCase config = Some agent
        \<and> pa_name agent \<noteq> []
        \<and> pa_name agent =
            (case field ?fm ''name'' of
               Some v \<Rightarrow> v
             | None \<Rightarrow> if extractNameFromHeading (contentOf config) \<noteq> []
                        then extractNameFromHeading (contentOf config)
                        else filePath config)
        \<and> (field ?fm ''description'' = None
             \<and> extractFirstParagraph (fm_body ?fm) = []
             \<longrightarrow> pa_description agent = [])"
    by (simp add: parseAgentFromFile_def Let_def orElse_def split: option.splits)
qed

lemma isSpace_space: "isSpace 0x20"
  by (simp add: isSpace_def)

lemma headingAt_title:
  assumes "\<not> isSpace c"
  shows "headingAt (lit ''# '' @ c # cs @ rest)
     = Some (takeWhile (\<lambda>x. \<not> isLineTerminator x) (c # cs @ rest))"
proof -
  have l: "lit ''# '' = [0x23, 0x20]" by (simp add: lit_def)
  show ?thesis
    using assms by (simp add: l headingAt_def isSpace_space)
qed

lemma takeWhile_title:
  assumes "\<forall>x\<in>set h. \<not> isLineTerminator x" "rest = [] \<or> isLineTerminator (hd rest)"
  shows "takeWhile (\<lambda>x. \<not> isLineTerminator x) (h @ rest) = h"
proof -
  from assms(2) have "takeWhile (\<lambda>x. \<not> isLineTerminator x) rest = []"
    by (cases rest) auto
  with assms(1) show ?thesis by (simp add: takeWhile_append2)
qed

lemma extractNameFromHeading_title:
  assumes "\<not> isSpace c" "\<forall>x\<in>set (c # cs). \<not> isLineTerminator x"
    "rest = [] \<or> isLineTerminator (hd rest)"
  shows "extractNameFromHeading (lit ''# '' @ c # cs @ rest) = trim (c # cs)"
proof -
  have l: "lit ''# '' = [0x23, 0x20]" by (simp add: lit_def)
  have t: "takeWhile (\<lambda>x. \<not> isLineTerminator x) (c # cs @ rest) = c # cs"
    using takeWhile_title [of "c # cs" rest] assms(2,3) by simp
  have h: "headingAt (lit ''# '' @ c # cs @ rest) = Some (c # cs)"
    using headingAt_title [OF assms(1), of cs rest] by (simp only: t)
  have "headingSearch True (lit ''# '' @ c # cs @ rest) = Some (c # cs)"
    using h by (simp add: l)
  then show ?thesis by (simp add: extractNameFromHeading_def)
qed

lemma trim_nonempty: "\<not> isSpace c \<Longrightarrow> trim (c # cs) \<noteq> []"
  by (simp add: trim_def dropWhile_eq_Nil_conv)

lemma no_frontmatter_hash: "parseFrontmatter (lit ''# '' @ s)
   = \<lparr>fm_found = False, fm_fields = Map.empty, fm_body = lit ''# '' @ s\<rparr>"
  by (rule parseFrontmatter_not_found) (simp add: openDelimiter_def lit_def)

text \<open>
  C10: \<open>parseAgentFromFile\<close> returns a record for every config with a non-empty file path
  (the paths the scanner produces are non-empty), so its \<open>null\<close> branch is not reached:
  the name is the frontmatter \<open>name\<close> if present and non-empty, else the first heading
  found by \<open>extractNameFromHeading\<close> if non-empty, else the file path, and is never
  empty. In particular a file that starts with a level-1 heading (a hash, a space and a
  title up to the end of the line) has no frontmatter and gets the trimmed title as name.
  A config without a frontmatter description and without a paragraph gets the empty
  string as description, not a failure.
\<close>

theorem parseAgentFromFile_total:
  "filePath config \<noteq> [] \<longrightarrow>
     (\<exists>agent. parseAgentFromFile toLowerCase config = Some agent
        \<and> pa_name agent \<noteq> []
        \<and> pa_name agent =
            (case field (parseFrontmatter (contentOf config)) ''name'' of
               Some v \<Rightarrow> v
             | None \<Rightarrow> if extractNameFromHeading (contentOf config) \<noteq> []
                        then extractNameFromHeading (contentOf config)
                        else filePath config)
        \<and> (content config = Some (lit ''# '' @ c # cs @ rest) \<and> \<not> isSpace c
             \<and> (\<forall>x\<in>set (c # cs). \<not> isLineTerminator x)
             \<and> (rest = [] \<or> isLineTerminator (hd rest))
             \<longrightarrow> pa_name agent = trim (c # cs))
        \<and> (field (parseFrontmatter (contentOf config)) ''description'' = None
             \<and> extractFirstParagraph (fm_body (parseFrontmatter (contentOf config))) = []
             \<longrightarrow> pa_description agent = []))"
proof
  assume p: "filePath config \<noteq> []"
  from parseAgentFromFile_some [of config toLowerCase, THEN mp, OF p]
  obtain agent where a: "parseAgentFromFile toLowerCase config = Some agent"
    and ne: "pa_name agent \<noteq> []"
    and n: "pa_name agent =
            (case field (parseFrontmatter (contentOf config)) ''name'' of
               Some v \<Rightarrow> v
             | None \<Rightarrow> if extractNameFromHeading (contentOf config) \<noteq> []
                        then extractNameFromHeading (contentOf config)
                        else filePath config)"
    and d: "field (parseFrontmatter (contentOf config)) ''description'' = None
             \<and> extractFirstParagraph (fm_body (parseFrontmatter (contentOf config))) = []
             \<longrightarrow> pa_description agent = []"
    by (elim exE conjE)
  have h: "content config = Some (lit ''# '' @ c # cs @ rest) \<and> \<not> isSpace c
             \<and> (\<forall>x\<in>set (c # cs). \<not> isLineTerminator x)
             \<and> (rest = [] \<or> isLineTerminator (hd rest))
             \<longrightarrow> pa_name agent = trim (c # cs)"
  proof
    assume q: "content config = Some (lit ''# '' @ c # cs @ rest) \<and> \<not> isSpace c
             \<and> (\<forall>x\<in>set (c # cs). \<not> isLineTerminator x)
             \<and> (rest = [] \<or> isLineTerminator (hd rest))"
    then have src: "contentOf config = lit ''# '' @ c # cs @ rest"
      by (simp add: contentOf_def)
    have f: "field (parseFrontmatter (contentOf config)) ''name'' = None"
      unfolding src no_frontmatter_hash by (simp add: field_def)
    have e: "extractNameFromHeading (contentOf config) = trim (c # cs)"
      unfolding src using q by (intro extractNameFromHeading_title) simp_all
    from q have "trim (c # cs) \<noteq> []" by (intro trim_nonempty) simp
    with n f e show "pa_name agent = trim (c # cs)" by simp
  qed
  show "\<exists>agent. parseAgentFromFile toLowerCase config = Some agent
        \<and> pa_name agent \<noteq> []
        \<and> pa_name agent =
            (case field (parseFrontmatter (contentOf config)) ''name'' of
               Some v \<Rightarrow> v
             | None \<Rightarrow> if extractNameFromHeading (contentOf config) \<noteq> []
                        then extractNameFromHeading (contentOf config)
                        else filePath config)
        \<and> (content config = Some (lit ''# '' @ c # cs @ rest) \<and> \<not> isSpace c
             \<and> (\<forall>x\<in>set (c # cs). \<not> isLineTerminator x)
             \<and> (rest = [] \<or> isLineTerminator (hd rest))
             \<longrightarrow> pa_name agent = trim (c # cs))
        \<and> (field (parseFrontmatter (contentOf config)) ''description'' = None
             \<and> extractFirstParagraph (fm_body (parseFrontmatter (contentOf config))) = []
             \<longrightarrow> pa_description agent = [])"
    by (intro exI [of _ agent] conjI a ne n h d)
qed

lemma heading_facts:
  "agentWithHeading = lit ''# '' @ 0x48 # lit ''elper'' @ (0x0A # lit ''- item'')"
  "\<not> isSpace 0x48"
  "\<forall>x\<in>set (0x48 # lit ''elper''). \<not> isLineTerminator x"
  "trim (0x48 # lit ''elper'') = lit ''Helper''"
  "isLineTerminator (hd (0x0A # lit ''- item''))"
  by (simp_all add: agentWithHeading_def lit_def isSpace_def isLineTerminator_def trim_def)

lemma frontmatter_facts:
  "filePath (claudeConfig ''.claude/agents/r.md'' (Some agentWithFrontmatter))
     = lit ''.claude/agents/r.md''"
  "field (parseFrontmatter (contentOf (claudeConfig ''.claude/agents/r.md''
      (Some agentWithFrontmatter)))) ''name'' = Some (lit ''Code Reviewer'')"
  "extractNameFromHeading agentWithFrontmatter = lit ''Reviewer''"
  by code_simp+

lemma heading_description_facts:
  "field (parseFrontmatter (contentOf (claudeConfig ''.claude/agents/h.md''
      (Some agentWithHeading)))) ''description'' = None"
  "extractFirstParagraph (fm_body (parseFrontmatter (contentOf (claudeConfig
      ''.claude/agents/h.md'' (Some agentWithHeading))))) = []"
  by code_simp+

lemma noContent_facts:
  "filePath (claudeConfig ''.claude/agents/n.md'' None) = lit ''.claude/agents/n.md''"
  "field (parseFrontmatter (contentOf (claudeConfig ''.claude/agents/n.md'' None))) ''name'' = None"
  "extractNameFromHeading (contentOf (claudeConfig ''.claude/agents/n.md'' None)) = []"
  "field (parseFrontmatter (contentOf (claudeConfig ''.claude/agents/n.md'' None)))
     ''description'' = None"
  "extractFirstParagraph (fm_body (parseFrontmatter
     (contentOf (claudeConfig ''.claude/agents/n.md'' None)))) = []"
  by code_simp+

lemma emptyPath_null: "parseAgentFromFile asciiLower (claudeConfig [] None) = None"
  by code_simp

theorem parseAgentFromFile_total_witness:
  "(\<exists>agent. parseAgentFromFile asciiLower
        (claudeConfig ''.claude/agents/r.md'' (Some agentWithFrontmatter)) = Some agent
      \<and> pa_name agent = lit ''Code Reviewer'')
   \<and> extractNameFromHeading agentWithFrontmatter = lit ''Reviewer''
   \<and> (\<exists>agent. parseAgentFromFile asciiLower
        (claudeConfig ''.claude/agents/h.md'' (Some agentWithHeading)) = Some agent
      \<and> pa_name agent = lit ''Helper'' \<and> pa_description agent = [])
   \<and> (\<exists>agent. parseAgentFromFile asciiLower (claudeConfig ''.claude/agents/n.md'' None)
          = Some agent
        \<and> pa_name agent = lit ''.claude/agents/n.md'' \<and> pa_description agent = [])
   \<and> parseAgentFromFile asciiLower (claudeConfig [] None) = None"
proof -
  let ?r = "claudeConfig ''.claude/agents/r.md'' (Some agentWithFrontmatter)"
  let ?h = "claudeConfig ''.claude/agents/h.md'' (Some agentWithHeading)"
  let ?n = "claudeConfig ''.claude/agents/n.md'' None"
  have pr: "filePath ?r \<noteq> []" and ph: "filePath ?h \<noteq> []" and pn: "filePath ?n \<noteq> []"
    by (simp_all add: claudeConfig_def lit_def)
  have r: "\<exists>agent. parseAgentFromFile asciiLower ?r = Some agent
      \<and> pa_name agent = lit ''Code Reviewer''"
  proof -
    from parseAgentFromFile_total [of ?r asciiLower 0 "[]" "[]", THEN mp, OF pr]
    obtain agent where a: "parseAgentFromFile asciiLower ?r = Some agent"
      and n: "pa_name agent =
            (case field (parseFrontmatter (contentOf ?r)) ''name'' of
               Some v \<Rightarrow> v
             | None \<Rightarrow> if extractNameFromHeading (contentOf ?r) \<noteq> []
                        then extractNameFromHeading (contentOf ?r)
                        else filePath ?r)"
      by (elim exE conjE) (rule that)
    from n have "pa_name agent = lit ''Code Reviewer''"
      by (simp add: frontmatter_facts(2))
    with a show ?thesis by (intro exI [of _ agent] conjI)
  qed
  have h: "\<exists>agent. parseAgentFromFile asciiLower ?h = Some agent
      \<and> pa_name agent = lit ''Helper'' \<and> pa_description agent = []"
  proof -
    have c: "content ?h = Some (lit ''# '' @ 0x48 # lit ''elper'' @ (0x0A # lit ''- item''))"
      using heading_facts(1) by (simp add: claudeConfig_def)
    from parseAgentFromFile_total
      [of ?h asciiLower "0x48" "lit ''elper''" "0x0A # lit ''- item''", THEN mp, OF ph]
    obtain agent where a: "parseAgentFromFile asciiLower ?h = Some agent"
      and t: "content ?h = Some (lit ''# '' @ 0x48 # lit ''elper'' @ (0x0A # lit ''- item''))
             \<and> \<not> isSpace 0x48
             \<and> (\<forall>x\<in>set (0x48 # lit ''elper''). \<not> isLineTerminator x)
             \<and> (0x0A # lit ''- item'' = [] \<or> isLineTerminator (hd (0x0A # lit ''- item'')))
             \<longrightarrow> pa_name agent = trim (0x48 # lit ''elper'')"
      and d: "field (parseFrontmatter (contentOf ?h)) ''description'' = None
             \<and> extractFirstParagraph (fm_body (parseFrontmatter (contentOf ?h))) = []
             \<longrightarrow> pa_description agent = []"
      by (elim exE conjE) (rule that)
    from t c heading_facts(2,3,5) have "pa_name agent = trim (0x48 # lit ''elper'')"
      by (intro mp [OF t] conjI disjI2)
    then have n: "pa_name agent = lit ''Helper''" by (simp only: heading_facts(4))
    from d heading_description_facts have e: "pa_description agent = []"
      by (intro mp [OF d] conjI)
    from a n e show ?thesis by (intro exI [of _ agent] conjI)
  qed
  have n: "\<exists>agent. parseAgentFromFile asciiLower ?n = Some agent
        \<and> pa_name agent = lit ''.claude/agents/n.md'' \<and> pa_description agent = []"
  proof -
    from parseAgentFromFile_total [of ?n asciiLower 0 "[]" "[]", THEN mp, OF pn]
    obtain agent where a: "parseAgentFromFile asciiLower ?n = Some agent"
      and n: "pa_name agent =
            (case field (parseFrontmatter (contentOf ?n)) ''name'' of
               Some v \<Rightarrow> v
             | None \<Rightarrow> if extractNameFromHeading (contentOf ?n) \<noteq> []
                        then extractNameFromHeading (contentOf ?n)
                        else filePath ?n)"
      and d: "field (parseFrontmatter (contentOf ?n)) ''description'' = None
             \<and> extractFirstParagraph (fm_body (parseFrontmatter (contentOf ?n))) = []
             \<longrightarrow> pa_description agent = []"
      by (elim exE conjE) (rule that)
    from n have n': "pa_name agent = lit ''.claude/agents/n.md''"
      by (simp add: noContent_facts(1,2,3))
    from d noContent_facts(4,5) have d': "pa_description agent = []"
      by (intro mp [OF d] conjI)
    from a n' d' show ?thesis by (intro exI [of _ agent] conjI)
  qed
  show ?thesis
    by (intro conjI r frontmatter_facts(3) h n emptyPath_null)
qed

end
